theory Spec2Isabelle
  imports Main "HOL-Library.Word"
begin

section \<open>Go strings and the library functions the parsers call\<close>

text \<open>
  A Go string is a sequence of bytes, here a \<^typ>\<open>string\<close> (a list of 8-bit characters).
  The functions of packages \<^verbatim>\<open>strings\<close>, \<^verbatim>\<open>unicode\<close> and \<^verbatim>\<open>strconv\<close> that the
  repository calls are written out below from their documented behaviour.
\<close>

subsection \<open>White space, as \<^verbatim>\<open>unicode.IsSpace\<close> sees it in UTF-8 text\<close>

text \<open>
  \<^verbatim>\<open>unicode.IsSpace\<close> holds for the code points U+0009..U+000D, U+0020, U+0085, U+00A0,
  U+1680, U+2000..U+200A, U+2028, U+2029, U+202F, U+205F and U+3000. Each has exactly one
  valid UTF-8 encoding, of one, two or three bytes; an invalid byte decodes to U+FFFD,
  which is not white space.
\<close>

definition isSpace1 :: "char \<Rightarrow> bool" where
  "isSpace1 c \<longleftrightarrow> c \<in> {CHR 0x09, CHR 0x0A, CHR 0x0B, CHR 0x0C, CHR 0x0D, CHR 0x20}"

definition isSpace2 :: "char \<Rightarrow> char \<Rightarrow> bool" where
  "isSpace2 c d \<longleftrightarrow> c = CHR 0xC2 \<and> d \<in> {CHR 0x85, CHR 0xA0}"

definition isSpace3 :: "char \<Rightarrow> char \<Rightarrow> char \<Rightarrow> bool" where
  "isSpace3 c d e \<longleftrightarrow>
     (c = CHR 0xE1 \<and> d = CHR 0x9A \<and> e = CHR 0x80) \<or>
     (c = CHR 0xE2 \<and> d = CHR 0x80 \<and>
        e \<in> {CHR 0x80, CHR 0x81, CHR 0x82, CHR 0x83, CHR 0x84, CHR 0x85, CHR 0x86, CHR 0x87,
             CHR 0x88, CHR 0x89, CHR 0x8A, CHR 0xA8, CHR 0xA9, CHR 0xAF}) \<or>
     (c = CHR 0xE2 \<and> d = CHR 0x81 \<and> e = CHR 0x9F) \<or>
     (c = CHR 0xE3 \<and> d = CHR 0x80 \<and> e = CHR 0x80)"

text \<open>The width in bytes of the white space rune a string starts with, 0 when it starts
  with none.\<close>

fun spaceWidth :: "string \<Rightarrow> nat" where
  "spaceWidth (c # d # e # _) =
     (if isSpace1 c then 1 else if isSpace2 c d then 2 else if isSpace3 c d e then 3 else 0)"
| "spaceWidth [c, d] = (if isSpace1 c then 1 else if isSpace2 c d then 2 else 0)"
| "spaceWidth [c] = (if isSpace1 c then 1 else 0)"
| "spaceWidth [] = 0"

text \<open>The same for the rune a string ends with, read off the reversed string
  (\<^verbatim>\<open>utf8.DecodeLastRuneInString\<close>).\<close>

fun spaceWidthLast :: "string \<Rightarrow> nat" where
  "spaceWidthLast (e # d # c # _) =
     (if isSpace1 e then 1 else if isSpace2 d e then 2 else if isSpace3 c d e then 3 else 0)"
| "spaceWidthLast [e, d] = (if isSpace1 e then 1 else if isSpace2 d e then 2 else 0)"
| "spaceWidthLast [e] = (if isSpace1 e then 1 else 0)"
| "spaceWidthLast [] = 0"

subsection \<open>\<^verbatim>\<open>strings.TrimSpace\<close>\<close>

fun trimLeft :: "string \<Rightarrow> string" where
  "trimLeft [] = []"
| "trimLeft (c # cs) =
     (case spaceWidth (c # cs) of 0 \<Rightarrow> c # cs | Suc n \<Rightarrow> trimLeft (drop n cs))"

fun trimLeftRev :: "string \<Rightarrow> string" where
  "trimLeftRev [] = []"
| "trimLeftRev (c # cs) =
     (case spaceWidthLast (c # cs) of 0 \<Rightarrow> c # cs | Suc n \<Rightarrow> trimLeftRev (drop n cs))"

definition trimRight :: "string \<Rightarrow> string" where
  "trimRight s = rev (trimLeftRev (rev s))"

definition TrimSpace :: "string \<Rightarrow> string" where
  "TrimSpace s = trimRight (trimLeft s)"

subsection \<open>\<^verbatim>\<open>strings.Fields\<close>\<close>

text \<open>\<^verbatim>\<open>Fields\<close> splits around each run of white space and returns the non-empty pieces;
  \<open>cur\<close> holds the bytes of the field being read.\<close>

fun FieldsFrom :: "string \<Rightarrow> string \<Rightarrow> string list" where
  "FieldsFrom cur [] = (if cur = [] then [] else [cur])"
| "FieldsFrom cur (c # cs) =
     (case spaceWidth (c # cs) of
        0 \<Rightarrow> FieldsFrom (cur @ [c]) cs
      | Suc n \<Rightarrow> (if cur = [] then [] else [cur]) @ FieldsFrom [] (drop n cs))"

definition Fields :: "string \<Rightarrow> string list" where
  "Fields s = FieldsFrom [] s"

subsection \<open>\<^verbatim>\<open>strings.HasSuffix\<close>, \<^verbatim>\<open>Join\<close>, \<^verbatim>\<open>SplitN\<close>, \<^verbatim>\<open>Split\<close>\<close>

text \<open>\<^verbatim>\<open>strings.HasSuffix(s, ":")\<close>.\<close>

definition HasSuffixColon :: "string \<Rightarrow> bool" where
  "HasSuffixColon s \<longleftrightarrow> s \<noteq> [] \<and> last s = CHR '':''"

text \<open>\<^verbatim>\<open>strings.Join(elems, " ")\<close>.\<close>

fun JoinSpace :: "string list \<Rightarrow> string" where
  "JoinSpace [] = []"
| "JoinSpace [x] = x"
| "JoinSpace (x # y # ys) = x @ '' '' @ JoinSpace (y # ys)"

text \<open>\<^verbatim>\<open>strings.SplitN(l, ":", 2)\<close>: the whole string when it holds no colon, else the text
  before the first colon and the text after it.\<close>

definition SplitN2Colon :: "string \<Rightarrow> string list" where
  "SplitN2Colon l =
     (if CHR '':'' \<in> set l
      then [takeWhile (\<lambda>c. c \<noteq> CHR '':'') l, tl (dropWhile (\<lambda>c. c \<noteq> CHR '':'') l)]
      else [l])"

text \<open>\<^verbatim>\<open>strings.Split(s, ",")\<close>: every comma separates, so the result has one more element
  than \<open>s\<close> has commas (one empty string for the empty \<open>s\<close>).\<close>

fun SplitComma :: "string \<Rightarrow> string list" where
  "SplitComma [] = [[]]"
| "SplitComma (c # cs) =
     (if c = CHR '','' then [] # SplitComma cs
      else (case SplitComma cs of [] \<Rightarrow> [[c]] | h # t \<Rightarrow> (c # h) # t))"

section \<open>Errors\<close>

text \<open>\<^verbatim>\<open>strconv.ErrSyntax\<close> and \<^verbatim>\<open>strconv.ErrRange\<close>.\<close>

datatype num_error = ErrSyntax | ErrRange

text \<open>
  The error values the package returns, one constructor for each message:
  \<^item> \<open>CommandError\<close>: whatever the AT transport's \<^verbatim>\<open>Command\<close> returned;
  \<^item> \<open>EmptyResponse w\<close>: \<^verbatim>\<open>atmodem: empty <w> response from modem\<close>, with \<open>w\<close> one of
    \<open>''info''\<close> and \<open>''status''\<close>;
  \<^item> \<open>EmptyInput\<close>: \<^verbatim>\<open>atmodem: no key/value pair values provided for parsing\<close>;
  \<^item> \<open>MalformedLine l\<close>: \<^verbatim>\<open>atmodem: malformed info line: %q\<close>;
  \<^item> \<open>UnexpectedSegmentCount n l\<close>:
    \<^verbatim>\<open>atmodem: unexpected status response line with %d key/value pairs %q\<close>;
  \<^item> \<open>NumError f s e\<close>: \<^verbatim>\<open>*strconv.NumError{Func: f, Num: s, Err: e}\<close>;
  \<^item> \<open>AmbiguousField\<close>: \<^verbatim>\<open>atmodem: cannot determine which RSRP dBm value is being parsed\<close>.

  \<open>PanicIndexOutOfRange\<close> is no error value: it stands for the run-time panic of an
  index expression out of range, so that the absence of panics can be stated.
\<close>

datatype error =
    CommandError string
  | EmptyResponse string
  | EmptyInput
  | MalformedLine string
  | UnexpectedSegmentCount nat string
  | NumError string string num_error
  | AmbiguousField
  | PanicIndexOutOfRange

section \<open>\<^verbatim>\<open>strconv.Atoi\<close>\<close>

text \<open>Go's \<^verbatim>\<open>int\<close> is taken to be 64 bits wide (\<^verbatim>\<open>strconv.IntSize = 64\<close>); its values are
  modelled as integers, and \<^verbatim>\<open>Atoi\<close> refuses what does not fit.\<close>

definition digitVal :: "char \<Rightarrow> int option" where
  "digitVal c =
     map_of [(CHR ''0'', 0), (CHR ''1'', 1), (CHR ''2'', 2), (CHR ''3'', 3), (CHR ''4'', 4),
             (CHR ''5'', 5), (CHR ''6'', 6), (CHR ''7'', 7), (CHR ''8'', 8), (CHR ''9'', 9)] c"

text \<open>The digit loop of \<^verbatim>\<open>strconv.ParseUint(s, 10, 64)\<close>: a range error is reported as
  soon as the next digit would overflow 64 bits, a syntax error at the first byte that is
  no decimal digit.\<close>

fun ParseUintLoop :: "int \<Rightarrow> string \<Rightarrow> num_error + int" where
  "ParseUintLoop n [] = Inr n"
| "ParseUintLoop n (c # cs) =
     (case digitVal c of
        None \<Rightarrow> Inl ErrSyntax
      | Some d \<Rightarrow>
          if n \<ge> 1844674407370955162 then Inl ErrRange
          else if n * 10 + d > 18446744073709551615 then Inl ErrRange
          else ParseUintLoop (n * 10 + d) cs)"

definition ParseUint :: "string \<Rightarrow> num_error + int" where
  "ParseUint s = (if s = [] then Inl ErrSyntax else ParseUintLoop 0 s)"

text \<open>\<^verbatim>\<open>Atoi\<close> is \<^verbatim>\<open>ParseInt(s, 10, 0)\<close> with the function name of the error replaced: an
  optional sign, the unsigned digits, then the range check of a signed 64-bit value.\<close>

definition Atoi :: "string \<Rightarrow> error + int" where
  "Atoi s =
     (case s of
        [] \<Rightarrow> Inl (NumError ''Atoi'' s ErrSyntax)
      | c # cs \<Rightarrow>
          (let neg = (c = CHR ''-'');
               digits = (if c = CHR ''+'' \<or> c = CHR ''-'' then cs else s)
           in case ParseUint digits of
                Inl e \<Rightarrow> Inl (NumError ''Atoi'' s e)
              | Inr un \<Rightarrow>
                  if \<not> neg \<and> un \<ge> 9223372036854775808 then Inl (NumError ''Atoi'' s ErrRange)
                  else if neg \<and> un > 9223372036854775808 then Inl (NumError ''Atoi'' s ErrRange)
                  else Inr (if neg then - un else un)))"

section \<open>The value parser (\<^verbatim>\<open>valueparser.go\<close>)\<close>

record valueParser =
  vp_ss :: "string list"
  vp_err :: "error option"

text \<open>\<^verbatim>\<open>newValueParser\<close> refuses the empty slice and trims every element of the slice it is
  given (in place: the parser keeps that very slice).\<close>

definition newValueParser :: "string list \<Rightarrow> error + valueParser" where
  "newValueParser ss =
     (if length ss = 0 then Inl EmptyInput
      else Inr \<lparr>vp_ss = map TrimSpace ss, vp_err = None\<rparr>)"

definition valueParser_Err :: "valueParser \<Rightarrow> error option" where
  "valueParser_Err vp = vp_err vp"

text \<open>The methods return their value together with the parser they leave behind. The read
  of \<^verbatim>\<open>vp.ss[0]\<close> panics on a parser without elements.\<close>

definition valueParser_Int :: "valueParser \<Rightarrow> error + (int \<times> valueParser)" where
  "valueParser_Int vp =
     (if vp_err vp \<noteq> None then Inr (0, vp)
      else case vp_ss vp of
             [] \<Rightarrow> Inl PanicIndexOutOfRange
           | t # _ \<Rightarrow>
               (case Atoi t of
                  Inl e \<Rightarrow> Inr (0, vp\<lparr>vp_err := Some e\<rparr>)
                | Inr v \<Rightarrow> Inr (v, vp)))"

definition valueParser_String :: "valueParser \<Rightarrow> string \<times> valueParser" where
  "valueParser_String vp =
     (if vp_err vp \<noteq> None then ([], vp) else (JoinSpace (vp_ss vp), vp))"

text \<open>A \<^verbatim>\<open>float64\<close> is kept as its 64 bits; the zero value is \<open>+0.0\<close>.\<close>

datatype float64 = Float64bits "64 word"

definition float64_zero :: float64 where
  "float64_zero = Float64bits 0"

text \<open>
  Modelled from the spec: \<^verbatim>\<open>valueParser.Float64\<close>, which \<^verbatim>\<open>Status.parse\<close> calls and
  \<^verbatim>\<open>valueparser.go\<close> as given does not hold. The spec: it parses \<open>tokens[0]\<close> as a decimal
  floating-point value, with the failure and no-op policy of the integer extraction.
  The conversion itself, \<^verbatim>\<open>strconv.ParseFloat(s, 64)\<close>, is the parameter \<open>pf\<close>.
\<close>

definition valueParser_Float64 ::
  "(string \<Rightarrow> num_error + float64) \<Rightarrow> valueParser \<Rightarrow> error + (float64 \<times> valueParser)" where
  "valueParser_Float64 pf vp =
     (if vp_err vp \<noteq> None then Inr (float64_zero, vp)
      else case vp_ss vp of
             [] \<Rightarrow> Inl PanicIndexOutOfRange
           | t # _ \<Rightarrow>
               (case pf t of
                  Inl e \<Rightarrow> Inr (float64_zero, vp\<lparr>vp_err := Some (NumError ''ParseFloat'' t e)\<rparr>)
                | Inr v \<Rightarrow> Inr (v, vp)))"

text \<open>An assignment \<^verbatim>\<open>x = vp.Int()\<close>, \<^verbatim>\<open>x = vp.String()\<close> or \<^verbatim>\<open>x = vp.Float64()\<close>: the
  method is called, and \<open>f\<close> stores its value.\<close>

definition withInt :: "valueParser \<Rightarrow> (int \<Rightarrow> 'a) \<Rightarrow> error + (valueParser \<times> 'a)" where
  "withInt vp f =
     (case valueParser_Int vp of Inl e \<Rightarrow> Inl e | Inr (v, vp') \<Rightarrow> Inr (vp', f v))"

definition withString :: "valueParser \<Rightarrow> (string \<Rightarrow> 'a) \<Rightarrow> error + (valueParser \<times> 'a)" where
  "withString vp f = (case valueParser_String vp of (v, vp') \<Rightarrow> Inr (vp', f v))"

definition withFloat64 ::
  "(string \<Rightarrow> num_error + float64) \<Rightarrow> valueParser \<Rightarrow> (float64 \<Rightarrow> 'a) \<Rightarrow>
   error + (valueParser \<times> 'a)" where
  "withFloat64 pf vp f =
     (case valueParser_Float64 pf vp of Inl e \<Rightarrow> Inl e | Inr (v, vp') \<Rightarrow> Inr (vp', f v))"

section \<open>Device information (\<^verbatim>\<open>Device.Info\<close>, \<^verbatim>\<open>parseInfo\<close>)\<close>

record Info =
  Manufacturer :: string
  Model :: string
  Revision :: string
  IMEI :: string
  MEID :: string
  FSN :: string
  IMEISV :: int
  GCAP :: "string list"

text \<open>\<^verbatim>\<open>var i Info\<close>: every field at its zero value.\<close>

definition Info_zero :: Info where
  "Info_zero = \<lparr>Manufacturer = [], Model = [], Revision = [], IMEI = [], MEID = [], FSN = [],
                 IMEISV = 0, GCAP = []\<rparr>"

text \<open>The case labels of the \<^verbatim>\<open>switch\<close> in \<^verbatim>\<open>parseInfo\<close>.\<close>

definition infoKeys :: "string list" where
  "infoKeys = [''Manufacturer'', ''Model'', ''Revision'', ''IMEI'', ''MEID'', ''IMEI SV'',
               ''FSN'', ''+GCAP'']"

text \<open>The \<^verbatim>\<open>switch ss[0]\<close> of \<^verbatim>\<open>parseInfo\<close>, on the key \<open>k\<close>.\<close>

definition infoSwitch :: "string \<Rightarrow> valueParser \<Rightarrow> Info \<Rightarrow> error + (valueParser \<times> Info)" where
  "infoSwitch k vp i =
     (if k = ''Manufacturer'' then withString vp (\<lambda>v. i\<lparr>Manufacturer := v\<rparr>)
      else if k = ''Model'' then withString vp (\<lambda>v. i\<lparr>Model := v\<rparr>)
      else if k = ''Revision'' then withString vp (\<lambda>v. i\<lparr>Revision := v\<rparr>)
      else if k = ''IMEI'' then withString vp (\<lambda>v. i\<lparr>IMEI := v\<rparr>)
      else if k = ''MEID'' then withString vp (\<lambda>v. i\<lparr>MEID := v\<rparr>)
      else if k = ''IMEI SV'' then withInt vp (\<lambda>v. i\<lparr>IMEISV := v\<rparr>)
      else if k = ''FSN'' then withString vp (\<lambda>v. i\<lparr>FSN := v\<rparr>)
      else if k = ''+GCAP'' then withString vp (\<lambda>v. i\<lparr>GCAP := SplitComma v\<rparr>)
      else Inr (vp, i))"

text \<open>The body of the loop over the lines in \<^verbatim>\<open>parseInfo\<close>.\<close>

definition parseInfo_line :: "Info \<Rightarrow> string \<Rightarrow> error + Info" where
  "parseInfo_line i l =
     (let ss = SplitN2Colon l in
      if length ss \<noteq> 2 then Inl (MalformedLine l)
      else case newValueParser [ss ! 1] of
             Inl e \<Rightarrow> Inl e
           | Inr vp \<Rightarrow>
               (case infoSwitch (ss ! 0) vp i of
                  Inl e \<Rightarrow> Inl e
                | Inr (vp', i') \<Rightarrow>
                    (case valueParser_Err vp' of Some e \<Rightarrow> Inl e | None \<Rightarrow> Inr i')))"

fun parseInfo_loop :: "Info \<Rightarrow> string list \<Rightarrow> error + Info" where
  "parseInfo_loop i [] = Inr i"
| "parseInfo_loop i (l # ls) =
     (case parseInfo_line i l of Inl e \<Rightarrow> Inl e | Inr i' \<Rightarrow> parseInfo_loop i' ls)"

definition parseInfo :: "string list \<Rightarrow> error + Info" where
  "parseInfo lines = parseInfo_loop Info_zero lines"

text \<open>\<^verbatim>\<open>Device.Info\<close>, as a function of what \<^verbatim>\<open>d.d.Command("I")\<close> returned: an error or the
  response lines.\<close>

definition Device_Info :: "error + string list \<Rightarrow> error + Info" where
  "Device_Info cmd =
     (case cmd of
        Inl e \<Rightarrow> Inl e
      | Inr ss \<Rightarrow>
          if length ss = 0 then Inl (EmptyResponse ''info'') else parseInfo ss)"

subsection \<open>\<^verbatim>\<open>parseInfo\<close> as \<^verbatim>\<open>device.go\<close> has it, without the value parser\<close>

definition parseInfo0_line :: "Info \<Rightarrow> string \<Rightarrow> error + Info" where
  "parseInfo0_line i l =
     (let ss = SplitN2Colon l in
      if length ss \<noteq> 2 then Inl (MalformedLine l)
      else
        (let k = ss ! 0; v = TrimSpace (ss ! 1) in
         if k = ''Manufacturer'' then Inr (i\<lparr>Manufacturer := v\<rparr>)
         else if k = ''Model'' then Inr (i\<lparr>Model := v\<rparr>)
         else if k = ''Revision'' then Inr (i\<lparr>Revision := v\<rparr>)
         else if k = ''IMEI'' then Inr (i\<lparr>IMEI := v\<rparr>)
         else if k = ''MEID'' then Inr (i\<lparr>MEID := v\<rparr>)
         else if k = ''IMEI SV'' then
           (case Atoi v of Inl e \<Rightarrow> Inl e | Inr n \<Rightarrow> Inr (i\<lparr>IMEISV := n\<rparr>))
         else if k = ''FSN'' then Inr (i\<lparr>FSN := v\<rparr>)
         else if k = ''+GCAP'' then Inr (i\<lparr>GCAP := SplitComma v\<rparr>)
         else Inr i))"

fun parseInfo0_loop :: "Info \<Rightarrow> string list \<Rightarrow> error + Info" where
  "parseInfo0_loop i [] = Inr i"
| "parseInfo0_loop i (l # ls) =
     (case parseInfo0_line i l of Inl e \<Rightarrow> Inl e | Inr i' \<Rightarrow> parseInfo0_loop i' ls)"

definition parseInfo0 :: "string list \<Rightarrow> error + Info" where
  "parseInfo0 lines = parseInfo0_loop Info_zero lines"

section \<open>Device status (\<^verbatim>\<open>Device.Status\<close>, \<^verbatim>\<open>parseStatus\<close>, \<^verbatim>\<open>Status.parse\<close>)\<close>

text \<open>\<^verbatim>\<open>statusState\<close>: the zero value has no name in the source (\<^verbatim>\<open>_ statusState = iota\<close>).\<close>

datatype statusState = stateUnset | rxmLast | rxdLast

text \<open>A \<^verbatim>\<open>time.Duration\<close> is a signed 64-bit count of nanoseconds; \<open>int64\<close> is the
  wrap-around of a product into that range.\<close>

definition int64 :: "int \<Rightarrow> int" where
  "int64 x = (x + 9223372036854775808) mod 18446744073709551616 - 9223372036854775808"

definition Second :: int where
  "Second = 1000000000"

record Status =
  CurrentTime :: int
  Temperature :: int
  ResetCounter :: int
  Mode :: string
  SystemMode :: string
  PSState :: string
  LTEBand :: string
  LTEBandwidthMHz :: float64
  LTEReceiveChannel :: int
  LTETransmitChannel :: int
  LTECAState :: string
  EMMState :: string
  RRCState :: string
  IMSRegState :: string
  PCCRXMRSSI :: int
  RSRPRXMdBm :: int
  PCCRXDRSSI :: int
  RSRPRXDdBm :: int
  TransmitPower :: int
  TAC :: string
  CellID :: string
  RSRQdB :: float64
  SINRdB :: float64
  state :: statusState

text \<open>\<^verbatim>\<open>var s Status\<close>.\<close>

definition Status_zero :: Status where
  "Status_zero =
     \<lparr>CurrentTime = 0, Temperature = 0, ResetCounter = 0, Mode = [], SystemMode = [],
      PSState = [], LTEBand = [], LTEBandwidthMHz = float64_zero, LTEReceiveChannel = 0,
      LTETransmitChannel = 0, LTECAState = [], EMMState = [], RRCState = [],
      IMSRegState = [], PCCRXMRSSI = 0, RSRPRXMdBm = 0, PCCRXDRSSI = 0, RSRPRXDdBm = 0,
      TransmitPower = 0, TAC = [], CellID = [], RSRQdB = float64_zero,
      SINRdB = float64_zero, state = stateUnset\<rparr>"

text \<open>The case labels of the \<^verbatim>\<open>switch k\<close> in \<^verbatim>\<open>Status.parse\<close>.\<close>

definition statusKeys :: "string list" where
  "statusKeys =
     [''Current Time:'', ''Temperature:'', ''Reset Counter:'', ''Mode:'', ''System mode:'',
      ''PS state:'', ''LTE band:'', ''LTE bw:'', ''LTE Rx chan:'', ''LTE Tx chan:'',
      ''LTE CA state:'', ''EMM state:'', ''RRC state:'', ''IMS reg state:'',
      ''PCC RxM RSSI:'', ''PCC RxD RSSI:'', ''RSRP (dBm):'', ''Tx Power:'', ''TAC:'',
      ''Cell ID:'', ''RSRQ (dB):'', ''SINR (dB):'']"

text \<open>The \<^verbatim>\<open>switch k\<close> of \<^verbatim>\<open>Status.parse\<close>.\<close>

definition statusSwitch ::
  "(string \<Rightarrow> num_error + float64) \<Rightarrow> string \<Rightarrow> valueParser \<Rightarrow> Status \<Rightarrow>
   error + (valueParser \<times> Status)" where
  "statusSwitch pf k vp s =
     (if k = ''Current Time:'' then withInt vp (\<lambda>v. s\<lparr>CurrentTime := int64 (v * Second)\<rparr>)
      else if k = ''Temperature:'' then withInt vp (\<lambda>v. s\<lparr>Temperature := v\<rparr>)
      else if k = ''Reset Counter:'' then withInt vp (\<lambda>v. s\<lparr>ResetCounter := v\<rparr>)
      else if k = ''Mode:'' then withString vp (\<lambda>v. s\<lparr>Mode := v\<rparr>)
      else if k = ''System mode:'' then withString vp (\<lambda>v. s\<lparr>SystemMode := v\<rparr>)
      else if k = ''PS state:'' then withString vp (\<lambda>v. s\<lparr>PSState := v\<rparr>)
      else if k = ''LTE band:'' then withString vp (\<lambda>v. s\<lparr>LTEBand := v\<rparr>)
      else if k = ''LTE bw:'' then withFloat64 pf vp (\<lambda>v. s\<lparr>LTEBandwidthMHz := v\<rparr>)
      else if k = ''LTE Rx chan:'' then withInt vp (\<lambda>v. s\<lparr>LTEReceiveChannel := v\<rparr>)
      else if k = ''LTE Tx chan:'' then withInt vp (\<lambda>v. s\<lparr>LTETransmitChannel := v\<rparr>)
      else if k = ''LTE CA state:'' then withString vp (\<lambda>v. s\<lparr>LTECAState := v\<rparr>)
      else if k = ''EMM state:'' then withString vp (\<lambda>v. s\<lparr>EMMState := v\<rparr>)
      else if k = ''RRC state:'' then withString vp (\<lambda>v. s\<lparr>RRCState := v\<rparr>)
      else if k = ''IMS reg state:'' then withString vp (\<lambda>v. s\<lparr>IMSRegState := v\<rparr>)
      else if k = ''PCC RxM RSSI:'' then
        withInt vp (\<lambda>v. s\<lparr>PCCRXMRSSI := v, state := rxmLast\<rparr>)
      else if k = ''PCC RxD RSSI:'' then
        withInt vp (\<lambda>v. s\<lparr>PCCRXDRSSI := v, state := rxdLast\<rparr>)
      else if k = ''RSRP (dBm):'' then
        (case state s of
           rxmLast \<Rightarrow> withInt vp (\<lambda>v. s\<lparr>RSRPRXMdBm := v\<rparr>)
         | rxdLast \<Rightarrow> withInt vp (\<lambda>v. s\<lparr>RSRPRXDdBm := v\<rparr>)
         | stateUnset \<Rightarrow> Inl AmbiguousField)
      else if k = ''Tx Power:'' then withInt vp (\<lambda>v. s\<lparr>TransmitPower := v\<rparr>)
      else if k = ''TAC:'' then withString vp (\<lambda>v. s\<lparr>TAC := v\<rparr>)
      else if k = ''Cell ID:'' then withString vp (\<lambda>v. s\<lparr>CellID := v\<rparr>)
      else if k = ''RSRQ (dB):'' then withFloat64 pf vp (\<lambda>v. s\<lparr>RSRQdB := v\<rparr>)
      else if k = ''SINR (dB):'' then withFloat64 pf vp (\<lambda>v. s\<lparr>SINRdB := v\<rparr>)
      else Inr (vp, s))"

text \<open>
  The loop \<^verbatim>\<open>for i := range ss\<close> of \<^verbatim>\<open>Status.parse\<close>: \<open>pre\<close> is \<^verbatim>\<open>ss[:i]\<close> and the list
  it recurses on is \<^verbatim>\<open>ss[i:]\<close>. The \<^verbatim>\<open>i++\<close> of the body does not move the loop, which visits
  every index. \<^verbatim>\<open>newValueParser(ss[i:])\<close> trims the rest of the slice in place, so the later
  rounds read the trimmed elements, \<open>vp_ss vp\<close>.
\<close>

function Status_parse_loop ::
  "(string \<Rightarrow> num_error + float64) \<Rightarrow> string list \<Rightarrow> string list \<Rightarrow> Status \<Rightarrow> error + Status"
  where
  "Status_parse_loop pf pre [] s = Inr s"
| "Status_parse_loop pf pre (t # rest) s =
     (if \<not> HasSuffixColon t then Status_parse_loop pf (pre @ [t]) rest s
      else case newValueParser rest of
             Inl e \<Rightarrow> Inl e
           | Inr vp \<Rightarrow>
               (case statusSwitch pf (JoinSpace (pre @ [t])) vp s of
                  Inl e \<Rightarrow> Inl e
                | Inr (vp', s') \<Rightarrow>
                    (case valueParser_Err vp' of
                       Some e \<Rightarrow> Inl e
                     | None \<Rightarrow> Status_parse_loop pf (pre @ [t]) (vp_ss vp) s')))"
  by pat_completeness auto
termination
  by (relation "measure (\<lambda>(pf, pre, ss, s). length ss)")
    (auto simp: newValueParser_def split: if_splits)

definition Status_parse ::
  "(string \<Rightarrow> num_error + float64) \<Rightarrow> Status \<Rightarrow> string list \<Rightarrow> error + Status" where
  "Status_parse pf s ss = Status_parse_loop pf [] ss s"

text \<open>The positions of the tokens that end in a colon.\<close>

definition indicesOf :: "string list \<Rightarrow> nat list" where
  "indicesOf ss = filter (\<lambda>i. HasSuffixColon (ss ! i)) [0..<length ss]"

text \<open>The body of the loop over the lines in \<^verbatim>\<open>parseStatus\<close>, for a line after the first.\<close>

definition parseStatus_line ::
  "(string \<Rightarrow> num_error + float64) \<Rightarrow> Status \<Rightarrow> string \<Rightarrow> error + Status" where
  "parseStatus_line pf s l =
     (let ss = Fields l; indices = indicesOf ss in
      if length indices = 1 then Status_parse pf s ss
      else if length indices = 2 then
        (let next = indices ! 0 + 2 in
         case Status_parse pf s (take next ss) of
           Inl e \<Rightarrow> Inl e
         | Inr s' \<Rightarrow> Status_parse pf s' (drop next ss))
      else Inl (UnexpectedSegmentCount (length indices) l))"

text \<open>The loop \<^verbatim>\<open>for i, l := range lines\<close>; the line of index 0 is skipped.\<close>

fun parseStatus_loop ::
  "(string \<Rightarrow> num_error + float64) \<Rightarrow> nat \<Rightarrow> string list \<Rightarrow> Status \<Rightarrow> error + Status" where
  "parseStatus_loop pf i [] s = Inr s"
| "parseStatus_loop pf i (l # ls) s =
     (if i = 0 then parseStatus_loop pf (Suc i) ls s
      else case parseStatus_line pf s l of
             Inl e \<Rightarrow> Inl e
           | Inr s' \<Rightarrow> parseStatus_loop pf (Suc i) ls s')"

definition parseStatus ::
  "(string \<Rightarrow> num_error + float64) \<Rightarrow> string list \<Rightarrow> error + Status" where
  "parseStatus pf lines = parseStatus_loop pf 0 lines Status_zero"

text \<open>\<^verbatim>\<open>Device.Status\<close>, as a function of what \<^verbatim>\<open>d.d.Command("!GSTATUS?")\<close> returned.\<close>

definition Device_Status ::
  "(string \<Rightarrow> num_error + float64) \<Rightarrow> error + string list \<Rightarrow> error + Status" where
  "Device_Status pf cmd =
     (case cmd of
        Inl e \<Rightarrow> Inl e
      | Inr ss \<Rightarrow>
          if length ss = 0 then Inl (EmptyResponse ''status'') else parseStatus pf ss)"

text \<open>A float conversion that accepts no input, for runs on lines without a float field.\<close>

definition ParseFloat_reject :: "string \<Rightarrow> num_error + float64" where
  "ParseFloat_reject s = Inl ErrSyntax"

section \<open>Predicates for the proofs\<close>

text \<open>The errors that \<^verbatim>\<open>Status.parse\<close> can return.\<close>

definition parseError :: "error \<Rightarrow> bool" where
  "parseError e =
     (case e of EmptyInput \<Rightarrow> True | AmbiguousField \<Rightarrow> True | NumError f t ne \<Rightarrow> True
      | _ \<Rightarrow> False)"

text \<open>What a \<^verbatim>\<open>switch\<close> over the keys can do to a parser that holds a token and no error:
  fail on the ambiguous key, or keep the tokens and set at most a conversion error.\<close>

definition switchOk :: "valueParser \<Rightarrow> error + (valueParser \<times> 'a) \<Rightarrow> bool" where
  "switchOk vp r =
     (case r of
        Inl e \<Rightarrow> e = AmbiguousField
      | Inr (vp', x) \<Rightarrow>
          vp_ss vp' = vp_ss vp \<and> (case vp_err vp' of None \<Rightarrow> True | Some e \<Rightarrow> parseError e))"

text \<open>A token in which no white space rune starts at any position, and the same for the
  bytes \<open>cur\<close> of a field being read in front of the text \<open>s\<close> still to come.\<close>

fun spaceFree :: "string \<Rightarrow> bool" where
  "spaceFree [] = True"
| "spaceFree (c # cs) = (spaceWidth (c # cs) = 0 \<and> spaceFree cs)"

fun spaceFreeBefore :: "string \<Rightarrow> string \<Rightarrow> bool" where
  "spaceFreeBefore [] s = True"
| "spaceFreeBefore (c # cs) s = (spaceWidth (c # cs @ s) = 0 \<and> spaceFreeBefore cs s)"

section \<open>Evaluation of the library functions\<close>

lemmas space_defs = isSpace1_def isSpace2_def isSpace3_def

lemmas trim_defs = TrimSpace_def trimRight_def space_defs

lemmas atoi_defs = Atoi_def ParseUint_def digitVal_def

lemma indicesOf_Nil: "indicesOf [] = []"
  by (simp add: indicesOf_def)

lemma indicesOf_Cons:
  "indicesOf (x # xs) = (if HasSuffixColon x then [0] else []) @ map Suc (indicesOf xs)"
proof -
  have "[0..<length (x # xs)] = 0 # map Suc [0..<length xs]"
    by (simp add: upt_conv_Cons map_Suc_upt del: upt_Suc)
  then show ?thesis
    by (simp add: indicesOf_def filter_map comp_def)
qed

text \<open>The number of positions recorded is the number of tokens that end in a colon.\<close>

lemma length_indicesOf: "length (indicesOf ss) = length (filter HasSuffixColon ss)"
  by (induction ss) (simp_all add: indicesOf_Nil indicesOf_Cons)

lemmas status_eval = Status_parse_def newValueParser_def statusSwitch_def withInt_def
  valueParser_Int_def valueParser_Err_def atoi_defs trim_defs int64_def Second_def
  HasSuffixColon_def indicesOf_Nil indicesOf_Cons

section \<open>The value parser\<close>

text \<open>
  C2. Once the error of a value parser is set, \<^verbatim>\<open>Int\<close> returns 0 and \<^verbatim>\<open>String\<close> returns the
  empty string, neither panics, and both leave the parser, its error included, as it was;
  \<^verbatim>\<open>Err\<close> still reports that error. The parser after the call satisfies the hypothesis
  again, so this holds for every later call as well: no method clears the error.
\<close>

theorem sticky_error:
  assumes "vp_err vp = Some e"
  shows "valueParser_Int vp = Inr (0, vp) \<and> valueParser_String vp = ([], vp) \<and>
         valueParser_Err vp = Some e"
  using assms by (simp add: valueParser_Int_def valueParser_String_def valueParser_Err_def)

text \<open>C2, at the parser that a failed \<^verbatim>\<open>Int\<close> on \<^verbatim>\<open>"foo"\<close> leaves behind.\<close>

theorem sticky_error_witness:
  "vp_err \<lparr>vp_ss = [''foo''], vp_err = Some (NumError ''Atoi'' ''foo'' ErrSyntax)\<rparr>
     = Some (NumError ''Atoi'' ''foo'' ErrSyntax) \<and>
   valueParser_Int \<lparr>vp_ss = [''foo''], vp_err = Some (NumError ''Atoi'' ''foo'' ErrSyntax)\<rparr>
     = Inr (0, \<lparr>vp_ss = [''foo''], vp_err = Some (NumError ''Atoi'' ''foo'' ErrSyntax)\<rparr>) \<and>
   valueParser_String \<lparr>vp_ss = [''foo''], vp_err = Some (NumError ''Atoi'' ''foo'' ErrSyntax)\<rparr>
     = ([], \<lparr>vp_ss = [''foo''], vp_err = Some (NumError ''Atoi'' ''foo'' ErrSyntax)\<rparr>) \<and>
   valueParser_Err \<lparr>vp_ss = [''foo''], vp_err = Some (NumError ''Atoi'' ''foo'' ErrSyntax)\<rparr>
     = Some (NumError ''Atoi'' ''foo'' ErrSyntax)"
  using sticky_error [of "\<lparr>vp_ss = [''foo''], vp_err = Some (NumError ''Atoi'' ''foo'' ErrSyntax)\<rparr>"
      "NumError ''Atoi'' ''foo'' ErrSyntax"]
  by simp

text \<open>The float extraction, as modelled, behaves the same once the error is set.\<close>

lemma sticky_error_Float64:
  "vp_err vp = Some e \<Longrightarrow> valueParser_Float64 pf vp = Inr (float64_zero, vp)"
  by (simp add: valueParser_Float64_def)

text \<open>
  C3, as the claim has it, fails: the constructor does not keep a token that has white space
  around it. From the token \<^verbatim>\<open>" huawei"\<close>, which is what \<^verbatim>\<open>parseInfo\<close> passes for the line
  \<^verbatim>\<open>"Manufacturer: huawei"\<close>, the parser holds \<^verbatim>\<open>"huawei"\<close>.
\<close>

theorem newValueParser_trims_counterexample:
  "newValueParser ['' huawei''] = Inr \<lparr>vp_ss = [''huawei''], vp_err = None\<rparr> \<and>
   newValueParser ['' huawei''] \<noteq> Inr \<lparr>vp_ss = ['' huawei''], vp_err = None\<rparr>"
  by (simp add: newValueParser_def trim_defs)

text \<open>
  C3, amended. \<^verbatim>\<open>newValueParser\<close> of the empty sequence is the error \<open>EmptyInput\<close>, not a
  panic. For a non-empty sequence it succeeds, with no error set, and holds the tokens in
  their order, each with its leading and trailing white space removed; tokens that have
  none are held unchanged.
\<close>

theorem newValueParser_result:
  "newValueParser [] = Inl EmptyInput \<and>
   (ss \<noteq> [] \<longrightarrow> newValueParser ss = Inr \<lparr>vp_ss = map TrimSpace ss, vp_err = None\<rparr>) \<and>
   (ss \<noteq> [] \<and> (\<forall>t\<in>set ss. TrimSpace t = t) \<longrightarrow>
      newValueParser ss = Inr \<lparr>vp_ss = ss, vp_err = None\<rparr>)"
  by (simp add: newValueParser_def map_idI)

text \<open>C3, amended, at the tokens \<^verbatim>\<open>"huawei"\<close> and \<^verbatim>\<open>"E173"\<close>.\<close>

theorem newValueParser_result_witness:
  "[''huawei'', ''E173''] \<noteq> [] \<and> TrimSpace ''huawei'' = ''huawei'' \<and> TrimSpace ''E173'' = ''E173'' \<and>
   newValueParser [''huawei'', ''E173''] = Inr \<lparr>vp_ss = [''huawei'', ''E173''], vp_err = None\<rparr>"
proof -
  have t1: "TrimSpace ''huawei'' = ''huawei''" by (simp add: trim_defs)
  have t2: "TrimSpace ''E173'' = ''E173''" by (simp add: trim_defs)
  have h: "[''huawei'', ''E173''] \<noteq> [] \<and> (\<forall>t\<in>set [''huawei'', ''E173'']. TrimSpace t = t)"
    using t1 t2 by simp
  have r: "newValueParser [''huawei'', ''E173''] =
      Inr \<lparr>vp_ss = [''huawei'', ''E173''], vp_err = None\<rparr>"
    using newValueParser_result [of "[''huawei'', ''E173'']"] h by blast
  show ?thesis
    using r t1 t2 by simp
qed

text \<open>
  C8, as the claim has it, fails: \<^verbatim>\<open>String\<close> looks at the error first. On the parser that a
  failed \<^verbatim>\<open>Int\<close> leaves behind it returns the empty string, not the joined tokens.
\<close>

theorem String_after_error_counterexample:
  "valueParser_Int \<lparr>vp_ss = [''foo'', ''bar''], vp_err = None\<rparr>
     = Inr (0, \<lparr>vp_ss = [''foo'', ''bar''], vp_err = Some (NumError ''Atoi'' ''foo'' ErrSyntax)\<rparr>) \<and>
   valueParser_String
       \<lparr>vp_ss = [''foo'', ''bar''], vp_err = Some (NumError ''Atoi'' ''foo'' ErrSyntax)\<rparr>
     = ([], \<lparr>vp_ss = [''foo'', ''bar''], vp_err = Some (NumError ''Atoi'' ''foo'' ErrSyntax)\<rparr>) \<and>
   JoinSpace [''foo'', ''bar''] = ''foo bar''"
  by (simp add: valueParser_Int_def valueParser_String_def atoi_defs)

text \<open>
  C8, amended. \<^verbatim>\<open>String\<close> returns the tokens joined with single spaces, in their order,
  when no error is set, and the empty string when one is; in both cases it leaves the
  parser as it was, so it sets no error itself.
\<close>

theorem String_result:
  "valueParser_String vp = (if vp_err vp = None then JoinSpace (vp_ss vp) else [], vp)"
  by (simp add: valueParser_String_def)

section \<open>Empty responses\<close>

text \<open>Without the check in \<^verbatim>\<open>Device.Info\<close> and \<^verbatim>\<open>Device.Status\<close>, the parsers return the
  zero record for no lines.\<close>

lemma parse_no_lines:
  "parseInfo [] = Inr Info_zero" "parseInfo0 [] = Inr Info_zero"
  "parseStatus pf [] = Inr Status_zero"
  by (simp_all add: parseInfo_def parseInfo0_def parseStatus_def)

text \<open>
  C1. When the command returned no lines, \<^verbatim>\<open>Device.Info\<close> fails with the error
  \<^verbatim>\<open>atmodem: empty info response from modem\<close> and \<^verbatim>\<open>Device.Status\<close> with
  \<^verbatim>\<open>atmodem: empty status response from modem\<close>; neither returns a record.
\<close>

theorem empty_response:
  "Device_Info (Inr []) = Inl (EmptyResponse ''info'') \<and>
   Device_Status pf (Inr []) = Inl (EmptyResponse ''status'')"
  by (simp add: Device_Info_def Device_Status_def)

section \<open>Status lines\<close>

lemma Fields_time_temperature:
  "Fields ''Current Time:  71465   Temperature: 41'' =
     [''Current'', ''Time:'', ''71465'', ''Temperature:'', ''41'']"
  by (simp add: Fields_def space_defs)

lemma Fields_foo: "Fields ''foo'' = [''foo'']"
  by (simp add: Fields_def space_defs)

lemma Fields_three: "Fields ''foo: bar bar: baz baz: qux'' = [''foo:'', ''bar'', ''bar:'', ''baz'', ''baz:'', ''qux'']"
  by (simp add: Fields_def space_defs)

lemma Fields_temperature: "Fields ''Temperature: 41'' = [''Temperature:'', ''41'']"
  by (simp add: Fields_def space_defs)

lemma parse_temperature:
  "parseStatus pf [hdr, ''Temperature: 41''] = Inr (Status_zero\<lparr>Temperature := 41\<rparr>)"
  by (simp add: parseStatus_def parseStatus_line_def Fields_temperature status_eval)


lemma Fields_rxm:
  "Fields ''PCC RxM RSSI:  -84   RSRP (dBm):  -113'' =
     [''PCC'', ''RxM'', ''RSSI:'', ''-84'', ''RSRP'', ''(dBm):'', ''-113'']"
  by (simp add: Fields_def space_defs)

lemma Fields_rxd:
  "Fields ''PCC RxD RSSI:  -84   RSRP (dBm):  -111'' =
     [''PCC'', ''RxD'', ''RSSI:'', ''-84'', ''RSRP'', ''(dBm):'', ''-111'']"
  by (simp add: Fields_def space_defs)

lemma line_rxm:
  "parseStatus_line pf Status_zero ''PCC RxM RSSI:  -84   RSRP (dBm):  -113'' =
     Inr (Status_zero\<lparr>PCCRXMRSSI := - 84, RSRPRXMdBm := - 113, state := rxmLast\<rparr>)"
  by (simp add: parseStatus_line_def Fields_rxm status_eval)

lemma line_rxd:
  "parseStatus_line pf s ''PCC RxD RSSI:  -84   RSRP (dBm):  -111'' =
     Inr (s\<lparr>PCCRXDRSSI := - 84, state := rxdLast, RSRPRXDdBm := - 111\<rparr>)"
  by (simp add: parseStatus_line_def Fields_rxd status_eval)


lemma Fields_rsrp: "Fields ''RSRP (dBm):  -113'' = [''RSRP'', ''(dBm):'', ''-113'']"
  by (simp add: Fields_def space_defs)

lemma Fields_rsrp_only: "Fields ''RSRP (dBm):'' = [''RSRP'', ''(dBm):'']"
  by (simp add: Fields_def space_defs)

lemma Fields_Foo: "Fields ''Foo:'' = [''Foo:'']"
  by (simp add: Fields_def space_defs)

lemma Fields_signal: "Fields ''Signal quality:  good'' = [''Signal'', ''quality:'', ''good'']"
  by (simp add: Fields_def space_defs)

text \<open>
  C4, as the claim has it, fails: the first line given to \<^verbatim>\<open>parseStatus\<close> is skipped as the
  response header, so from this line alone no field is set.
\<close>

theorem time_temperature_alone_counterexample:
  "parseStatus ParseFloat_reject [''Current Time:  71465   Temperature: 41''] = Inr Status_zero \<and>
   Device_Status ParseFloat_reject (Inr [''Current Time:  71465   Temperature: 41'']) =
     Inr Status_zero \<and>
   CurrentTime Status_zero = 0 \<and> Temperature Status_zero = 0"
  by (simp add: Device_Status_def parseStatus_def Status_zero_def)

text \<open>
  C4, amended. Given a header line, whatever it is, followed by the line
  \<^verbatim>\<open>"Current Time:  71465   Temperature: 41"\<close>, the record has the current time 71465 seconds
  (in nanoseconds) and the temperature 41, and every other field at its zero value.
\<close>

theorem time_temperature_after_header:
  "parseStatus pf [hdr, ''Current Time:  71465   Temperature: 41''] =
     Inr (Status_zero\<lparr>CurrentTime := 71465 * Second, Temperature := 41\<rparr>) \<and>
   Device_Status pf (Inr [hdr, ''Current Time:  71465   Temperature: 41'']) =
     Inr (Status_zero\<lparr>CurrentTime := 71465 * Second, Temperature := 41\<rparr>) \<and>
   71465 * Second = ((19 * 60 + 51) * 60 + 5) * 1000000000"
proof -
  have "parseStatus_line pf Status_zero ''Current Time:  71465   Temperature: 41'' =
      Inr (Status_zero\<lparr>CurrentTime := 71465 * Second, Temperature := 41\<rparr>)"
    by (simp add: parseStatus_line_def Fields_time_temperature status_eval)
  then show ?thesis
    by (simp add: Device_Status_def parseStatus_def Second_def)
qed


text \<open>
  C5, as the claim has it, fails: of the two lines given, the first is skipped as the
  response header. Only the second is parsed, and the RxM fields keep their zero value.
\<close>

theorem rsrp_pair_alone_counterexample:
  "parseStatus ParseFloat_reject
     [''PCC RxM RSSI:  -84   RSRP (dBm):  -113'', ''PCC RxD RSSI:  -84   RSRP (dBm):  -111''] =
     Inr (Status_zero\<lparr>PCCRXDRSSI := - 84, RSRPRXDdBm := - 111, state := rxdLast\<rparr>) \<and>
   Device_Status ParseFloat_reject
     (Inr [''PCC RxM RSSI:  -84   RSRP (dBm):  -113'',
           ''PCC RxD RSSI:  -84   RSRP (dBm):  -111'']) =
     Inr (Status_zero\<lparr>PCCRXDRSSI := - 84, RSRPRXDdBm := - 111, state := rxdLast\<rparr>) \<and>
   RSRPRXMdBm (Status_zero\<lparr>PCCRXDRSSI := - 84, RSRPRXDdBm := - 111, state := rxdLast\<rparr>) = 0"
  by (simp add: Device_Status_def parseStatus_def line_rxd Status_zero_def)


text \<open>
  C5, amended. Given a header line, whatever it is, followed by the two lines, the first
  RSRP value, -113, is in the RxM field and the second, -111, in the RxD field.
\<close>

theorem rsrp_pair_after_header:
  "parseStatus pf
     [hdr, ''PCC RxM RSSI:  -84   RSRP (dBm):  -113'', ''PCC RxD RSSI:  -84   RSRP (dBm):  -111''] =
     Inr (Status_zero\<lparr>PCCRXMRSSI := - 84, RSRPRXMdBm := - 113, PCCRXDRSSI := - 84,
           RSRPRXDdBm := - 111, state := rxdLast\<rparr>) \<and>
   Device_Status pf
     (Inr [hdr, ''PCC RxM RSSI:  -84   RSRP (dBm):  -113'',
           ''PCC RxD RSSI:  -84   RSRP (dBm):  -111'']) =
     Inr (Status_zero\<lparr>PCCRXMRSSI := - 84, RSRPRXMdBm := - 113, PCCRXDRSSI := - 84,
           RSRPRXDdBm := - 111, state := rxdLast\<rparr>)"
  by (simp add: Device_Status_def parseStatus_def line_rxm line_rxd)

section \<open>What \<^verbatim>\<open>Status.parse\<close> and \<^verbatim>\<open>parseStatus\<close> can return\<close>

lemma Atoi_error: "Atoi t = Inl e \<Longrightarrow> \<exists>ne. e = NumError ''Atoi'' t ne"
  by (auto simp: Atoi_def Let_def split: list.splits sum.splits if_splits)

lemma switchOk_withInt:
  "vp_ss vp \<noteq> [] \<Longrightarrow> vp_err vp = None \<Longrightarrow> switchOk vp (withInt vp f)"
  by (auto simp: switchOk_def withInt_def valueParser_Int_def parseError_def
      split: list.splits sum.splits dest: Atoi_error)

lemma switchOk_withString:
  "vp_err vp = None \<Longrightarrow> switchOk vp (withString vp f)"
  by (simp add: switchOk_def withString_def valueParser_String_def)

lemma switchOk_withFloat64:
  "vp_ss vp \<noteq> [] \<Longrightarrow> vp_err vp = None \<Longrightarrow> switchOk vp (withFloat64 pf vp f)"
  by (auto simp: switchOk_def withFloat64_def valueParser_Float64_def parseError_def
      split: list.splits sum.splits)

lemma switchOk_statusSwitch:
  assumes "vp_ss vp \<noteq> []" and "vp_err vp = None"
  shows "switchOk vp (statusSwitch pf k vp s)"
proof -
  have a: "switchOk vp (Inl AmbiguousField :: error + (valueParser \<times> Status))"
    by (simp add: switchOk_def)
  have b: "switchOk vp (Inr (vp, s))"
    using assms(2) by (simp add: switchOk_def)
  show ?thesis
    unfolding statusSwitch_def
    by (simp add: a b switchOk_withInt [OF assms] switchOk_withString [OF assms(2)]
        switchOk_withFloat64 [OF assms] split: statusState.split)
qed


lemma newValueParser_Inl: "newValueParser ss = Inl e \<Longrightarrow> e = EmptyInput"
  by (simp add: newValueParser_def split: if_splits)

lemma newValueParser_Inr:
  "newValueParser ss = Inr vp \<Longrightarrow> ss \<noteq> [] \<and> vp_ss vp = map TrimSpace ss \<and> vp_err vp = None"
  by (auto simp: newValueParser_def split: if_splits)

lemma Status_parse_loop_error:
  "Status_parse_loop pf pre ss s = Inl e \<Longrightarrow> parseError e"
proof (induction pf pre ss s rule: Status_parse_loop.induct)
  case (1 pf pre s)
  then show ?case by simp
next
  case (2 pf pre t rest s)
  show ?case
  proof (cases "HasSuffixColon t")
    case False
    with 2 show ?thesis by simp
  next
    case True
    show ?thesis
    proof (cases "newValueParser rest")
      case (Inl e')
      with True "2.prems" show ?thesis
        by (auto simp: parseError_def dest: newValueParser_Inl)
    next
      case (Inr vp)
      then have vp: "vp_ss vp \<noteq> []" "vp_err vp = None"
        by (auto dest: newValueParser_Inr)
      have ok: "switchOk vp (statusSwitch pf (JoinSpace (pre @ [t])) vp s)"
        by (rule switchOk_statusSwitch [OF vp])
      show ?thesis
      proof (cases "statusSwitch pf (JoinSpace (pre @ [t])) vp s")
        case (Inl e')
        with ok True Inr "2.prems" show ?thesis
          by (simp add: switchOk_def parseError_def)
      next
        case sw: (Inr x)
        obtain vp' s' where x: "x = (vp', s')" by (cases x)
        show ?thesis
        proof (cases "valueParser_Err vp'")
          case None
          with True Inr sw x "2.prems" "2.IH"(2) show ?thesis by simp
        next
          case (Some e')
          with ok True Inr sw x "2.prems" show ?thesis
            by (simp add: switchOk_def valueParser_Err_def)
        qed
      qed
    qed
  qed
qed

lemma Status_parse_loop_skip:
  "\<forall>x\<in>set xs. \<not> HasSuffixColon x \<Longrightarrow>
   Status_parse_loop pf pre (xs @ rest) s = Status_parse_loop pf (pre @ xs) rest s"
  by (induction xs arbitrary: pre) simp_all

lemma parseStatus_loop_append:
  "parseStatus_loop pf i (xs @ ys) s =
     (case parseStatus_loop pf i xs s of
        Inl e \<Rightarrow> Inl e
      | Inr s' \<Rightarrow> parseStatus_loop pf (i + length xs) ys s')"
  by (induction xs arbitrary: i s) (simp_all split: sum.splits)

lemma parseStatus_line_error:
  "parseStatus_line pf s l = Inl e \<Longrightarrow>
     (length (indicesOf (Fields l)) \<in> {1, 2} \<and> parseError e) \<or>
     (length (indicesOf (Fields l)) \<notin> {1, 2} \<and>
        e = UnexpectedSegmentCount (length (indicesOf (Fields l))) l)"
  by (auto simp: parseStatus_line_def Let_def Status_parse_def
      split: if_splits sum.splits dest: Status_parse_loop_error)

lemma parseStatus_Cons: "parseStatus pf (hdr # ls) = parseStatus_loop pf 1 ls Status_zero"
  by (simp add: parseStatus_def)

lemma parseStatus_loop_no_count_error:
  "0 < i \<Longrightarrow> \<forall>l\<in>set ls. length (indicesOf (Fields l)) \<in> {1, 2} \<Longrightarrow>
   parseStatus_loop pf i ls s \<noteq> Inl (UnexpectedSegmentCount m l')"
proof (induction ls arbitrary: i s)
  case Nil
  then show ?case by simp
next
  case (Cons l ls)
  show ?case
  proof (cases "parseStatus_line pf s l")
    case (Inl e)
    then have "parseError e"
      using Cons.prems(2) by (auto dest: parseStatus_line_error)
    then have "e \<noteq> UnexpectedSegmentCount m l'"
      by (auto simp: parseError_def)
    with Inl Cons.prems(1) show ?thesis by simp
  next
    case (Inr s')
    with Cons show ?thesis by simp
  qed
qed

text \<open>
  C7. A line after the header whose tokens hold no token ending in a colon, or three or
  more, makes the loop body of \<^verbatim>\<open>parseStatus\<close> fail with the segment-count error that
  carries the count and the line; so does the whole parse when the lines before it were
  parsed without error. A line with one or two such tokens never gives that error, and
  neither does a response in which every line after the header has one or two.
\<close>

theorem unexpected_segment_count:
  "(length (filter HasSuffixColon (Fields l)) \<notin> {1, 2} \<longrightarrow>
      parseStatus_line pf s l =
        Inl (UnexpectedSegmentCount (length (filter HasSuffixColon (Fields l))) l)) \<and>
   (length (filter HasSuffixColon (Fields l)) \<in> {1, 2} \<longrightarrow>
      parseStatus_line pf s l \<noteq> Inl (UnexpectedSegmentCount m l')) \<and>
   (parseStatus pf (hdr # pre) = Inr s \<and> length (filter HasSuffixColon (Fields l)) \<notin> {1, 2} \<longrightarrow>
      parseStatus pf (hdr # pre @ l # post) =
        Inl (UnexpectedSegmentCount (length (filter HasSuffixColon (Fields l))) l)) \<and>
   ((\<forall>x\<in>set ls. length (filter HasSuffixColon (Fields x)) \<in> {1, 2}) \<longrightarrow>
      parseStatus pf (hdr # ls) \<noteq> Inl (UnexpectedSegmentCount m l'))"
proof (intro conjI impI)
  assume n: "length (filter HasSuffixColon (Fields l)) \<notin> {1, 2}"
  then show a: "parseStatus_line pf s l =
      Inl (UnexpectedSegmentCount (length (filter HasSuffixColon (Fields l))) l)"
    by (simp add: parseStatus_line_def Let_def length_indicesOf)
next
  assume "length (filter HasSuffixColon (Fields l)) \<in> {1, 2}"
  then have n: "length (indicesOf (Fields l)) \<in> {1, 2}"
    by (simp add: length_indicesOf)
  show "parseStatus_line pf s l \<noteq> Inl (UnexpectedSegmentCount m l')"
  proof
    assume "parseStatus_line pf s l = Inl (UnexpectedSegmentCount m l')"
    from parseStatus_line_error [OF this] n
    have "parseError (UnexpectedSegmentCount m l')" by auto
    then show False by (simp add: parseError_def)
  qed
next
  assume h: "parseStatus pf (hdr # pre) = Inr s \<and>
    length (filter HasSuffixColon (Fields l)) \<notin> {1, 2}"
  then have "parseStatus_line pf s l =
      Inl (UnexpectedSegmentCount (length (filter HasSuffixColon (Fields l))) l)"
    by (simp add: parseStatus_line_def Let_def length_indicesOf)
  with h show "parseStatus pf (hdr # pre @ l # post) =
      Inl (UnexpectedSegmentCount (length (filter HasSuffixColon (Fields l))) l)"
    by (simp add: parseStatus_Cons parseStatus_loop_append)
next
  assume "\<forall>x\<in>set ls. length (filter HasSuffixColon (Fields x)) \<in> {1, 2}"
  then have "\<forall>x\<in>set ls. length (indicesOf (Fields x)) \<in> {1, 2}"
    by (simp add: length_indicesOf)
  then show "parseStatus pf (hdr # ls) \<noteq> Inl (UnexpectedSegmentCount m l')"
    by (simp add: parseStatus_Cons parseStatus_loop_no_count_error)
qed

text \<open>C7, at lines with no, three and one token ending in a colon.\<close>

theorem unexpected_segment_count_witness:
  "length (filter HasSuffixColon (Fields ''foo'')) = 0 \<and>
   length (filter HasSuffixColon (Fields ''foo: bar bar: baz baz: qux'')) = 3 \<and>
   length (filter HasSuffixColon (Fields ''Temperature: 41'')) = 1 \<and>
   parseStatus_line ParseFloat_reject Status_zero ''foo: bar bar: baz baz: qux'' =
     Inl (UnexpectedSegmentCount 3 ''foo: bar bar: baz baz: qux'') \<and>
   parseStatus_line ParseFloat_reject Status_zero ''Temperature: 41'' \<noteq>
     Inl (UnexpectedSegmentCount 1 ''Temperature: 41'') \<and>
   parseStatus ParseFloat_reject [''!GSTATUS:'', ''Temperature: 41''] =
     Inr (Status_zero\<lparr>Temperature := 41\<rparr>) \<and>
   parseStatus ParseFloat_reject [''!GSTATUS:'', ''Temperature: 41'', ''foo'', ''Mode: ONLINE''] =
     Inl (UnexpectedSegmentCount 0 ''foo'') \<and>
   parseStatus ParseFloat_reject [''!GSTATUS:'', ''Temperature: 41''] \<noteq>
     Inl (UnexpectedSegmentCount 1 ''Temperature: 41'')"
proof -
  have n0: "length (filter HasSuffixColon (Fields ''foo'')) = 0"
    by (simp add: Fields_foo HasSuffixColon_def)
  have n3: "length (filter HasSuffixColon (Fields ''foo: bar bar: baz baz: qux'')) = 3"
    by (simp add: Fields_three HasSuffixColon_def)
  have n1: "length (filter HasSuffixColon (Fields ''Temperature: 41'')) = 1"
    by (simp add: Fields_temperature HasSuffixColon_def)
  have p: "parseStatus ParseFloat_reject [''!GSTATUS:'', ''Temperature: 41''] =
      Inr (Status_zero\<lparr>Temperature := 41\<rparr>)"
    by (rule parse_temperature)
  have a: "parseStatus_line ParseFloat_reject Status_zero ''foo: bar bar: baz baz: qux'' =
      Inl (UnexpectedSegmentCount 3 ''foo: bar bar: baz baz: qux'')"
    using unexpected_segment_count [of "''foo: bar bar: baz baz: qux''" ParseFloat_reject Status_zero]
      n3 by simp
  have b: "parseStatus_line ParseFloat_reject Status_zero ''Temperature: 41'' \<noteq>
      Inl (UnexpectedSegmentCount 1 ''Temperature: 41'')"
    using unexpected_segment_count [of "''Temperature: 41''" ParseFloat_reject Status_zero
        1 "''Temperature: 41''"] n1 by simp
  have c: "parseStatus ParseFloat_reject
        [''!GSTATUS:'', ''Temperature: 41'', ''foo'', ''Mode: ONLINE''] =
      Inl (UnexpectedSegmentCount 0 ''foo'')"
    using unexpected_segment_count [of "''foo''" ParseFloat_reject
        "Status_zero\<lparr>Temperature := 41\<rparr>" _ _ "''!GSTATUS:''" "[''Temperature: 41'']"
        "[''Mode: ONLINE'']"] n0 p by simp
  have d: "parseStatus ParseFloat_reject [''!GSTATUS:'', ''Temperature: 41''] \<noteq>
      Inl (UnexpectedSegmentCount 1 ''Temperature: 41'')"
    using unexpected_segment_count [of _ ParseFloat_reject _ 1 "''Temperature: 41''"
        "''!GSTATUS:''" _ _ "[''Temperature: 41'']"] n1 by simp
  show ?thesis
    using n0 n3 n1 a b p c d by blast
qed



section \<open>The tokens of \<^verbatim>\<open>strings.Fields\<close> have no white space\<close>

text \<open>So the trimming that \<^verbatim>\<open>newValueParser\<close> does leaves the tokens of a status line as
  they are.\<close>

lemma spaceWidth_prefix: "spaceWidth (xs @ ys) = 0 \<Longrightarrow> spaceWidth xs = 0"
  by (cases xs rule: spaceWidth.cases; cases ys rule: spaceWidth.cases)
    (auto split: if_splits)

lemma spaceFreeBefore_spaceFree: "spaceFreeBefore cur s \<Longrightarrow> spaceFree cur"
proof (induction cur)
  case Nil
  then show ?case by simp
next
  case (Cons c cs)
  then have "spaceWidth ((c # cs) @ s) = 0" by simp
  then have "spaceWidth (c # cs) = 0" by (rule spaceWidth_prefix)
  with Cons show ?case by simp
qed

lemma spaceFreeBefore_snoc:
  "spaceFreeBefore cur (c # cs) \<Longrightarrow> spaceWidth (c # cs) = 0 \<Longrightarrow> spaceFreeBefore (cur @ [c]) cs"
  by (induction cur) simp_all

lemma spaceFreeBefore_Nil: "spaceFreeBefore cur [] = spaceFree cur"
  by (induction cur) simp_all

lemma FieldsFrom_spaceFree:
  "spaceFreeBefore cur s \<Longrightarrow> t \<in> set (FieldsFrom cur s) \<Longrightarrow> spaceFree t"
proof (induction cur s rule: FieldsFrom.induct)
  case (1 cur)
  then show ?case by (simp add: spaceFreeBefore_Nil split: if_splits)
next
  case (2 cur c cs)
  show ?case
  proof (cases "spaceWidth (c # cs)")
    case 0
    with 2 show ?thesis by (simp add: spaceFreeBefore_snoc)
  next
    case (Suc n)
    with 2 show ?thesis
      by (auto dest: spaceFreeBefore_spaceFree split: if_splits)
  qed
qed

lemma spaceFree_append: "spaceFree (a @ b) \<Longrightarrow> spaceFree b"
  by (induction a) simp_all

lemma spaceFree_last: "spaceFree t \<Longrightarrow> spaceWidthLast (rev t) = 0"
proof (cases "rev t" rule: spaceWidthLast.cases)
  case (1 e d c r)
  assume sf: "spaceFree t"
  from 1 have "t = rev r @ [c, d, e]"
    by (metis append.assoc append_Cons append_Nil rev.simps(2) rev_rev_ident)
  with sf have "spaceFree [c, d, e]" by (metis spaceFree_append)
  with 1 show ?thesis by (auto split: if_splits)
next
  case (2 e d)
  assume sf: "spaceFree t"
  from 2 have "t = [d, e]"
    by (metis append_Cons append_Nil rev.simps rev_rev_ident)
  with sf 2 show ?thesis by (auto split: if_splits)
next
  case (3 e)
  assume sf: "spaceFree t"
  from 3 have "t = [e]" by simp
  with sf 3 show ?thesis by (auto split: if_splits)
next
  case 4
  then show ?thesis by simp
qed

lemma spaceFree_TrimSpace: "spaceFree t \<Longrightarrow> TrimSpace t = t"
proof -
  assume sf: "spaceFree t"
  have l: "trimLeft t = t"
    using sf by (cases t) simp_all
  have "trimLeftRev (rev t) = rev t"
    using spaceFree_last [OF sf] by (cases "rev t") simp_all
  with l show ?thesis by (simp add: TrimSpace_def trimRight_def)
qed

lemma Fields_TrimSpace: "t \<in> set (Fields l) \<Longrightarrow> TrimSpace t = t"
proof -
  assume "t \<in> set (Fields l)"
  then have "t \<in> set (FieldsFrom [] l)" by (simp add: Fields_def)
  moreover have "spaceFreeBefore [] l" by simp
  ultimately have "spaceFree t" by (rule FieldsFrom_spaceFree [rotated])
  then show ?thesis by (rule spaceFree_TrimSpace)
qed

lemma Fields_map_TrimSpace: "set ts \<subseteq> set (Fields l) \<Longrightarrow> map TrimSpace ts = ts"
  by (induction ts) (auto simp: Fields_TrimSpace)

lemma spaceWidth_0_first: "spaceWidth (c # cs) = 0 \<Longrightarrow> \<not> isSpace1 c"
  by (cases "c # cs" rule: spaceWidth.cases) (auto split: if_splits)

lemma spaceFree_no_blank: "spaceFree t \<Longrightarrow> CHR '' '' \<notin> set t"
proof (induction t)
  case Nil
  then show ?case by simp
next
  case (Cons c cs)
  then have "\<not> isSpace1 c" by (auto dest: spaceWidth_0_first)
  then have "c \<noteq> CHR '' ''" by (auto simp: isSpace1_def)
  with Cons show ?case by simp
qed

lemma Fields_spaceFree: "t \<in> set (Fields l) \<Longrightarrow> spaceFree t"
proof -
  assume "t \<in> set (Fields l)"
  then have "t \<in> set (FieldsFrom [] l)" by (simp add: Fields_def)
  moreover have "spaceFreeBefore [] l" by simp
  ultimately show "spaceFree t" by (rule FieldsFrom_spaceFree [rotated])
qed

section \<open>Keys and the state of \<^verbatim>\<open>Status.parse\<close>\<close>

lemma statusSwitch_unknown: "k \<notin> set statusKeys \<Longrightarrow> statusSwitch pf k vp s = Inr (vp, s)"
  by (simp add: statusSwitch_def statusKeys_def)

lemma statusSwitch_rsrp_unset:
  "state s = stateUnset \<Longrightarrow> statusSwitch pf ''RSRP (dBm):'' vp s = Inl AmbiguousField"
  by (simp add: statusSwitch_def)

lemma withInt_state:
  "withInt vp f = Inr (vp', s') \<Longrightarrow> \<forall>v. state (f v) = st \<Longrightarrow> state s' = st"
  by (auto simp: withInt_def split: sum.splits)

lemma withString_state:
  "withString vp f = Inr (vp', s') \<Longrightarrow> \<forall>v. state (f v) = st \<Longrightarrow> state s' = st"
  by (auto simp: withString_def split: prod.splits)

lemma withFloat64_state:
  "withFloat64 pf vp f = Inr (vp', s') \<Longrightarrow> \<forall>v. state (f v) = st \<Longrightarrow> state s' = st"
  by (auto simp: withFloat64_def split: sum.splits)

lemma statusSwitch_state:
  assumes "statusSwitch pf k vp s = Inr (vp', s')"
    and "k \<noteq> ''PCC RxM RSSI:''" and "k \<noteq> ''PCC RxD RSSI:''"
  shows "state s' = state s"
  using assms
  unfolding statusSwitch_def
  by (auto split: if_splits statusState.splits
      elim!: withInt_state withString_state withFloat64_state)

lemma Status_parse_no_value:
  assumes "\<forall>x\<in>set pre. \<not> HasSuffixColon x" and "HasSuffixColon t"
  shows "Status_parse pf s (pre @ [t]) = Inl EmptyInput"
  using assms Status_parse_loop_skip [of pre pf "[]" "[t]" s]
  by (simp add: Status_parse_def newValueParser_def)

lemma Status_parse_unknown_key:
  assumes "\<forall>x\<in>set pre. \<not> HasSuffixColon x" and "HasSuffixColon t" and "vs \<noteq> []"
    and "\<forall>x\<in>set vs. \<not> HasSuffixColon (TrimSpace x)"
    and "JoinSpace (pre @ [t]) \<notin> set statusKeys"
  shows "Status_parse pf s (pre @ t # vs) = Inr s"
proof -
  have "Status_parse pf s (pre @ t # vs) = Status_parse_loop pf pre (t # vs) s"
    using assms(1) Status_parse_loop_skip [of pre pf "[]" "t # vs" s]
    by (simp add: Status_parse_def)
  also have "\<dots> = Status_parse_loop pf (pre @ [t]) (map TrimSpace vs) s"
    using assms(2,3,5)
    by (simp add: newValueParser_def statusSwitch_unknown valueParser_Err_def)
  also have "\<dots> = Inr s"
    using assms(4) Status_parse_loop_skip [of "map TrimSpace vs" pf "pre @ [t]" "[]" s]
    by simp
  finally show ?thesis .
qed

lemma Status_parse_ambiguous:
  assumes "\<forall>x\<in>set pre. \<not> HasSuffixColon x" and "HasSuffixColon t" and "vs \<noteq> []"
    and "JoinSpace (pre @ [t]) = ''RSRP (dBm):''" and "state s = stateUnset"
  shows "Status_parse pf s (pre @ t # vs) = Inl AmbiguousField"
proof -
  have "Status_parse pf s (pre @ t # vs) = Status_parse_loop pf pre (t # vs) s"
    using assms(1) Status_parse_loop_skip [of pre pf "[]" "t # vs" s]
    by (simp add: Status_parse_def)
  also have "\<dots> = Inl AmbiguousField"
    using assms(2-5)
    by (simp add: newValueParser_def statusSwitch_rsrp_unset)
  finally show ?thesis .
qed

lemma line_rsrp_first:
  assumes "Fields l = ''RSRP'' # ''(dBm):'' # v # vs"
    and "length (filter HasSuffixColon (v # vs)) \<le> 1"
    and "state s = stateUnset"
  shows "parseStatus_line pf s l = Inl AmbiguousField"
proof -
  have k: "\<forall>x\<in>set [''RSRP'']. \<not> HasSuffixColon x" "HasSuffixColon ''(dBm):''"
    "JoinSpace ([''RSRP''] @ [''(dBm):'']) = ''RSRP (dBm):''"
    by (simp_all add: HasSuffixColon_def)
  have a: "Status_parse pf s ([''RSRP''] @ ''(dBm):'' # ws) = Inl AmbiguousField" if "ws \<noteq> []" for ws
    using Status_parse_ambiguous [OF k(1,2) that k(3) assms(3)] .
  have "length (indicesOf (Fields l)) = Suc (length (filter HasSuffixColon (v # vs)))"
    using assms(1) k by (simp add: length_indicesOf)
  with assms(2)
  have n: "length (indicesOf (Fields l)) = 1 \<or> length (indicesOf (Fields l)) = 2"
    by arith
  have i0: "indicesOf (Fields l) ! 0 = 1"
    using assms(1) k(2) by (simp add: indicesOf_Cons HasSuffixColon_def)
  show ?thesis
    using n
  proof
    assume "length (indicesOf (Fields l)) = 1"
    then show ?thesis
      using a [of "v # vs"] assms(1) by (simp add: parseStatus_line_def Let_def)
  next
    assume "length (indicesOf (Fields l)) = 2"
    then show ?thesis
      using a [of "[v]"] assms(1) i0 by (simp add: parseStatus_line_def Let_def)
  qed
qed

lemma JoinSpace_Cons: "ys \<noteq> [] \<Longrightarrow> JoinSpace (x # ys) = x @ '' '' @ JoinSpace ys"
  by (cases ys) simp_all

lemma JoinSpace_snoc:
  "JoinSpace (pre @ [t]) = (if pre = [] then t else JoinSpace pre @ '' '' @ t)"
proof (induction pre)
  case Nil
  then show ?case by simp
next
  case (Cons x pre)
  then show ?case by (cases pre) (simp_all add: JoinSpace_Cons)
qed

lemma last_word:
  "CHR '' '' \<notin> set t \<Longrightarrow>
   rev (takeWhile (\<lambda>c. c \<noteq> CHR '' '') (rev (p @ CHR '' '' # t))) = t"
proof -
  assume "CHR '' '' \<notin> set t"
  then have "takeWhile (\<lambda>c. c \<noteq> CHR '' '') (rev t @ CHR '' '' # rev p) = rev t"
    by (subst takeWhile_append2) auto
  then show ?thesis by simp
qed

lemma key_last_token:
  assumes "CHR '' '' \<notin> set t" and "JoinSpace (pre @ [t]) = k" and "CHR '' '' \<in> set k"
  shows "t = rev (takeWhile (\<lambda>c. c \<noteq> CHR '' '') (rev k))"
proof (cases "pre = []")
  case True
  with assms show ?thesis by (simp add: JoinSpace_snoc)
next
  case False
  with assms(2) have "k = JoinSpace pre @ CHR '' '' # t"
    by (simp add: JoinSpace_snoc)
  with last_word [OF assms(1), of "JoinSpace pre"] show ?thesis by simp
qed

lemma key_rssi:
  assumes "CHR '' '' \<notin> set t"
    and "JoinSpace (pre @ [t]) = ''PCC RxM RSSI:'' \<or> JoinSpace (pre @ [t]) = ''PCC RxD RSSI:''"
  shows "t = ''RSSI:''"
  using assms(2)
proof
  assume k: "JoinSpace (pre @ [t]) = ''PCC RxM RSSI:''"
  show ?thesis using key_last_token [OF assms(1) k] by simp
next
  assume k: "JoinSpace (pre @ [t]) = ''PCC RxD RSSI:''"
  show ?thesis using key_last_token [OF assms(1) k] by simp
qed

lemma Status_parse_loop_state:
  "Status_parse_loop pf pre ss s = Inr s' \<Longrightarrow> \<forall>x\<in>set ss. spaceFree x \<Longrightarrow>
   ''RSSI:'' \<notin> set ss \<Longrightarrow> state s' = state s"
proof (induction pf pre ss s rule: Status_parse_loop.induct)
  case (1 pf pre s)
  then show ?case by simp
next
  case (2 pf pre t rest s)
  show ?case
  proof (cases "HasSuffixColon t")
    case False
    with 2 show ?thesis by simp
  next
    case True
    from "2.prems"(2) have tr: "map TrimSpace rest = rest"
      by (simp add: map_idI spaceFree_TrimSpace)
    from True "2.prems"(1) obtain vp where vp: "newValueParser rest = Inr vp"
      by (auto split: sum.splits)
    with tr have ss: "vp_ss vp = rest"
      by (auto dest: newValueParser_Inr)
    from True vp "2.prems"(1) obtain vp' s1
      where sw: "statusSwitch pf (JoinSpace (pre @ [t])) vp s = Inr (vp', s1)"
      by (auto split: sum.splits)
    from True vp sw "2.prems"(1) have ok: "valueParser_Err vp' = None"
      and loop: "Status_parse_loop pf (pre @ [t]) (vp_ss vp) s1 = Inr s'"
      by (auto split: option.splits)
    have "t \<noteq> ''RSSI:''" using "2.prems"(3) by auto
    moreover have "CHR '' '' \<notin> set t"
      using "2.prems"(2) by (simp add: spaceFree_no_blank)
    ultimately have "JoinSpace (pre @ [t]) \<noteq> ''PCC RxM RSSI:''"
      "JoinSpace (pre @ [t]) \<noteq> ''PCC RxD RSSI:''"
      using key_rssi [of t pre] by blast+
    with sw have s1: "state s1 = state s" by (rule statusSwitch_state)
    have "state s' = state s1"
      using "2.IH"(2) [OF _ vp sw refl ok loop] True "2.prems"(2,3) ss by simp
    with s1 show ?thesis by simp
  qed
qed

lemma parseStatus_line_state:
  assumes "parseStatus_line pf s l = Inr s'" and "''RSSI:'' \<notin> set (Fields l)"
  shows "state s' = state s"
proof -
  have sf: "\<forall>x\<in>set (take n (Fields l)). spaceFree x" "\<forall>x\<in>set (drop n (Fields l)). spaceFree x"
    "''RSSI:'' \<notin> set (take n (Fields l))" "''RSSI:'' \<notin> set (drop n (Fields l))" for n
    using assms(2) by (auto dest: in_set_takeD in_set_dropD Fields_spaceFree)
  have all: "\<forall>x\<in>set (Fields l). spaceFree x"
    by (auto dest: Fields_spaceFree)
  show ?thesis
    using assms sf all
    by (auto simp: parseStatus_line_def Let_def Status_parse_def
        split: if_splits sum.splits dest!: Status_parse_loop_state)
qed

lemma parseStatus_loop_state:
  "parseStatus_loop pf i ls s = Inr s' \<Longrightarrow> 0 < i \<Longrightarrow>
   \<forall>l\<in>set ls. ''RSSI:'' \<notin> set (Fields l) \<Longrightarrow> state s' = state s"
proof (induction ls arbitrary: i s)
  case Nil
  then show ?case by simp
next
  case (Cons l ls)
  from Cons.prems(1,2) obtain s1 where l: "parseStatus_line pf s l = Inr s1"
    and r: "parseStatus_loop pf (Suc i) ls s1 = Inr s'"
    by (auto split: sum.splits)
  from l Cons.prems(3) have "state s1 = state s"
    by (auto dest: parseStatus_line_state)
  moreover from Cons.IH [OF r] Cons.prems(3) have "state s' = state s1" by simp
  ultimately show ?case by simp
qed

lemma parseStatus_state_unset:
  assumes "parseStatus pf (hdr # before) = Inr s"
    and "\<forall>l\<in>set before. ''RSSI:'' \<notin> set (Fields l)"
  shows "state s = stateUnset"
  using parseStatus_loop_state [of pf 1 before Status_zero s] assms
  by (simp add: parseStatus_Cons Status_zero_def)

lemma infoSwitch_unknown: "k \<notin> set infoKeys \<Longrightarrow> infoSwitch k vp i = Inr (vp, i)"
  by (simp add: infoSwitch_def infoKeys_def)

lemma line_unknown_key:
  assumes "Fields l = pre @ t # vs" and "\<forall>x\<in>set pre. \<not> HasSuffixColon x"
    and "HasSuffixColon t" and "\<forall>x\<in>set vs. \<not> HasSuffixColon x" and "vs \<noteq> []"
    and "JoinSpace (pre @ [t]) \<notin> set statusKeys"
  shows "parseStatus_line pf s l = Inr s"
proof -
  have "filter HasSuffixColon (Fields l) = [t]"
    using assms(1-4) by simp
  then have n: "length (indicesOf (Fields l)) = 1"
    by (simp add: length_indicesOf)
  have "\<forall>x\<in>set vs. TrimSpace x = x"
    using assms(1) by (auto intro: Fields_TrimSpace [of _ l])
  with assms(4) have "\<forall>x\<in>set vs. \<not> HasSuffixColon (TrimSpace x)" by simp
  from Status_parse_unknown_key [OF assms(2,3,5) this assms(6)] n assms(1)
  show ?thesis by (simp add: parseStatus_line_def Let_def)
qed

text \<open>\<^verbatim>\<open>Device.Status\<close> on a response with at least one line is \<^verbatim>\<open>parseStatus\<close>.\<close>

lemma Device_Status_Cons: "Device_Status pf (Inr (x # xs)) = parseStatus pf (x # xs)"
  by (simp add: Device_Status_def)

text \<open>
  C6, as the claim has it, fails: the value parser is made before the key is looked at, so
  a line that holds the key \<^verbatim>\<open>"RSRP (dBm):"\<close> and no value fails with \<open>EmptyInput\<close>, not
  with \<open>AmbiguousField\<close>.
\<close>

theorem rsrp_without_value_counterexample:
  "parseStatus ParseFloat_reject [''!GSTATUS:'', ''RSRP (dBm):''] = Inl EmptyInput"
  by (simp add: parseStatus_def parseStatus_line_def Fields_rsrp_only status_eval)

text \<open>
  C6, amended. When \<^verbatim>\<open>Status.parse\<close> is given a segment whose key (its tokens up to the
  first one ending in a colon, joined with spaces) is \<^verbatim>\<open>"RSRP (dBm):"\<close> while the state is
  unset, it fails with \<open>AmbiguousField\<close> if a value token follows the key, and with
  \<open>EmptyInput\<close> if none does. So the whole parse fails with \<open>AmbiguousField\<close> on a line that
  starts with the key, has a value and at most one more token ending in a colon, when the
  lines before it were parsed without error and left the state unset; they do leave it
  unset when none of them holds the token \<^verbatim>\<open>"RSSI:"\<close>, with which both keys that set the
  state end (lemmas \<open>statusSwitch_state\<close> and \<open>parseStatus_state_unset\<close>).
\<close>

theorem ambiguous_rsrp:
  "((\<forall>x\<in>set pre. \<not> HasSuffixColon x) \<and> HasSuffixColon t \<and>
    JoinSpace (pre @ [t]) = ''RSRP (dBm):'' \<and> state s = stateUnset \<longrightarrow>
      Status_parse pf s (pre @ t # vs) =
        (if vs = [] then Inl EmptyInput else Inl AmbiguousField)) \<and>
   (parseStatus pf (hdr # before) = Inr s \<and> state s = stateUnset \<and>
    Fields l = ''RSRP'' # ''(dBm):'' # v # vs \<and> length (filter HasSuffixColon (v # vs)) \<le> 1 \<longrightarrow>
      parseStatus pf (hdr # before @ l # after) = Inl AmbiguousField) \<and>
   (parseStatus pf (hdr # before) = Inr s \<and> (\<forall>x\<in>set before. ''RSSI:'' \<notin> set (Fields x)) \<and>
    Fields l = ''RSRP'' # ''(dBm):'' # v # vs \<and> length (filter HasSuffixColon (v # vs)) \<le> 1 \<longrightarrow>
      parseStatus pf (hdr # before @ l # after) = Inl AmbiguousField)"
proof (intro conjI impI)
  assume "(\<forall>x\<in>set pre. \<not> HasSuffixColon x) \<and> HasSuffixColon t \<and>
    JoinSpace (pre @ [t]) = ''RSRP (dBm):'' \<and> state s = stateUnset"
  then show "Status_parse pf s (pre @ t # vs) =
      (if vs = [] then Inl EmptyInput else Inl AmbiguousField)"
    by (simp add: Status_parse_no_value Status_parse_ambiguous)
next
  assume h: "parseStatus pf (hdr # before) = Inr s \<and> state s = stateUnset \<and>
    Fields l = ''RSRP'' # ''(dBm):'' # v # vs \<and> length (filter HasSuffixColon (v # vs)) \<le> 1"
  then have "parseStatus_line pf s l = Inl AmbiguousField"
    by (simp add: line_rsrp_first)
  with h show "parseStatus pf (hdr # before @ l # after) = Inl AmbiguousField"
    by (simp add: parseStatus_Cons parseStatus_loop_append)
next
  assume h: "parseStatus pf (hdr # before) = Inr s \<and>
    (\<forall>x\<in>set before. ''RSSI:'' \<notin> set (Fields x)) \<and>
    Fields l = ''RSRP'' # ''(dBm):'' # v # vs \<and> length (filter HasSuffixColon (v # vs)) \<le> 1"
  then have "state s = stateUnset"
    using parseStatus_state_unset [of pf hdr before s] by blast
  with h have "parseStatus_line pf s l = Inl AmbiguousField"
    by (simp add: line_rsrp_first)
  with h show "parseStatus pf (hdr # before @ l # after) = Inl AmbiguousField"
    by (simp add: parseStatus_Cons parseStatus_loop_append)
qed

text \<open>C6, amended, at the segment \<^verbatim>\<open>RSRP (dBm): -113\<close>, with and without its value, and at a
  response in which that line comes after a temperature line.\<close>

theorem ambiguous_rsrp_witness:
  "Status_parse ParseFloat_reject Status_zero [''RSRP'', ''(dBm):'', ''-113''] = Inl AmbiguousField \<and>
   Status_parse ParseFloat_reject Status_zero [''RSRP'', ''(dBm):''] = Inl EmptyInput \<and>
   parseStatus ParseFloat_reject [''!GSTATUS:'', ''Temperature: 41''] =
     Inr (Status_zero\<lparr>Temperature := 41\<rparr>) \<and>
   state (Status_zero\<lparr>Temperature := 41\<rparr>) = stateUnset \<and>
   ''RSSI:'' \<notin> set (Fields ''Temperature: 41'') \<and>
   parseStatus ParseFloat_reject
     [''!GSTATUS:'', ''Temperature: 41'', ''RSRP (dBm):  -113'', ''Mode: ONLINE''] =
     Inl AmbiguousField"
proof -
  have k: "(\<forall>x\<in>set [''RSRP'']. \<not> HasSuffixColon x) \<and> HasSuffixColon ''(dBm):'' \<and>
      JoinSpace ([''RSRP''] @ [''(dBm):'']) = ''RSRP (dBm):'' \<and> state Status_zero = stateUnset"
    by (simp add: HasSuffixColon_def Status_zero_def)
  have a: "Status_parse ParseFloat_reject Status_zero [''RSRP'', ''(dBm):'', ''-113''] =
      Inl AmbiguousField"
    using ambiguous_rsrp [of "[''RSRP'']" "''(dBm):''" Status_zero ParseFloat_reject "[''-113'']"] k
    by simp
  have b: "Status_parse ParseFloat_reject Status_zero [''RSRP'', ''(dBm):''] = Inl EmptyInput"
    using ambiguous_rsrp [of "[''RSRP'']" "''(dBm):''" Status_zero ParseFloat_reject "[]"] k
    by simp
  have p: "parseStatus ParseFloat_reject [''!GSTATUS:'', ''Temperature: 41''] =
      Inr (Status_zero\<lparr>Temperature := 41\<rparr>)"
    by (rule parse_temperature)
  have u: "state (Status_zero\<lparr>Temperature := 41\<rparr>) = stateUnset"
    by (simp add: Status_zero_def)
  have r: "''RSSI:'' \<notin> set (Fields ''Temperature: 41'')"
    by (simp add: Fields_temperature)
  have n: "length (filter HasSuffixColon [''-113'']) \<le> 1"
    by (simp add: HasSuffixColon_def)
  have c: "parseStatus ParseFloat_reject
      [''!GSTATUS:'', ''Temperature: 41'', ''RSRP (dBm):  -113'', ''Mode: ONLINE''] =
      Inl AmbiguousField"
    using ambiguous_rsrp [of _ _ "Status_zero\<lparr>Temperature := 41\<rparr>" ParseFloat_reject "[]"
        "''!GSTATUS:''" "[''Temperature: 41'']" "''RSRP (dBm):  -113''" "''-113''"
        "[''Mode: ONLINE'']"] p u r n Fields_rsrp
    by simp
  show ?thesis
    using a b p u r c by blast
qed

text \<open>
  C9, as the claim has it, fails for status lines: a key that is not in the table and has
  no value is not ignored, the line fails with \<open>EmptyInput\<close>.
\<close>

theorem unknown_key_without_value_counterexample:
  "parseStatus ParseFloat_reject [''!GSTATUS:'', ''Foo:''] = Inl EmptyInput \<and>
   ''Foo:'' \<notin> set statusKeys"
  by (simp add: parseStatus_def parseStatus_line_def Fields_Foo status_eval statusKeys_def)

text \<open>
  C9, amended. An info line whose key (the text before the first colon) is not a case of
  the \<^verbatim>\<open>switch\<close> is parsed without error and leaves the record as it was, in both versions
  of \<^verbatim>\<open>parseInfo\<close>. A status segment whose key is not a case of the \<^verbatim>\<open>switch\<close> and which
  has at least one value token, none of them ending in a colon, is parsed without error and
  leaves the record as it was; so is a status line that consists of such a segment. A
  status segment without a value token fails with \<open>EmptyInput\<close>, whatever its key.
\<close>

theorem unknown_key_ignored:
  "(SplitN2Colon l = [k, v] \<and> k \<notin> set infoKeys \<longrightarrow>
      parseInfo_line i l = Inr i \<and> parseInfo0_line i l = Inr i) \<and>
   ((\<forall>x\<in>set pre. \<not> HasSuffixColon x) \<and> HasSuffixColon t \<and>
    JoinSpace (pre @ [t]) \<notin> set statusKeys \<and> vs \<noteq> [] \<and>
    (\<forall>x\<in>set vs. \<not> HasSuffixColon (TrimSpace x)) \<longrightarrow>
      Status_parse pf s (pre @ t # vs) = Inr s) \<and>
   (Fields l' = pre @ t # vs \<and> (\<forall>x\<in>set pre. \<not> HasSuffixColon x) \<and> HasSuffixColon t \<and>
    JoinSpace (pre @ [t]) \<notin> set statusKeys \<and> vs \<noteq> [] \<and>
    (\<forall>x\<in>set vs. \<not> HasSuffixColon x) \<longrightarrow>
      parseStatus_line pf s l' = Inr s) \<and>
   ((\<forall>x\<in>set pre. \<not> HasSuffixColon x) \<and> HasSuffixColon t \<longrightarrow>
      Status_parse pf s (pre @ [t]) = Inl EmptyInput)"
proof (intro conjI impI)
  assume h: "SplitN2Colon l = [k, v] \<and> k \<notin> set infoKeys"
  then show "parseInfo_line i l = Inr i"
    by (simp add: parseInfo_line_def newValueParser_def infoSwitch_unknown valueParser_Err_def)
  from h show "parseInfo0_line i l = Inr i"
    by (simp add: parseInfo0_line_def infoKeys_def)
next
  assume "(\<forall>x\<in>set pre. \<not> HasSuffixColon x) \<and> HasSuffixColon t \<and>
    JoinSpace (pre @ [t]) \<notin> set statusKeys \<and> vs \<noteq> [] \<and>
    (\<forall>x\<in>set vs. \<not> HasSuffixColon (TrimSpace x))"
  then show "Status_parse pf s (pre @ t # vs) = Inr s"
    by (simp add: Status_parse_unknown_key)
next
  assume "Fields l' = pre @ t # vs \<and> (\<forall>x\<in>set pre. \<not> HasSuffixColon x) \<and> HasSuffixColon t \<and>
    JoinSpace (pre @ [t]) \<notin> set statusKeys \<and> vs \<noteq> [] \<and> (\<forall>x\<in>set vs. \<not> HasSuffixColon x)"
  then show "parseStatus_line pf s l' = Inr s"
    by (simp add: line_unknown_key)
next
  assume "(\<forall>x\<in>set pre. \<not> HasSuffixColon x) \<and> HasSuffixColon t"
  then show "Status_parse pf s (pre @ [t]) = Inl EmptyInput"
    by (simp add: Status_parse_no_value)
qed

text \<open>C9, amended, at the info line \<^verbatim>\<open>Operator: none\<close> and the status line
  \<^verbatim>\<open>Signal quality:  good\<close>.\<close>

theorem unknown_key_ignored_witness:
  "SplitN2Colon ''Operator: none'' = [''Operator'', '' none''] \<and> ''Operator'' \<notin> set infoKeys \<and>
   parseInfo_line Info_zero ''Operator: none'' = Inr Info_zero \<and>
   parseInfo0_line Info_zero ''Operator: none'' = Inr Info_zero \<and>
   JoinSpace ([''Signal''] @ [''quality:'']) \<notin> set statusKeys \<and>
   Status_parse ParseFloat_reject Status_zero ([''Signal''] @ ''quality:'' # [''good'']) =
     Inr Status_zero \<and>
   Fields ''Signal quality:  good'' = [''Signal''] @ ''quality:'' # [''good''] \<and>
   parseStatus_line ParseFloat_reject Status_zero ''Signal quality:  good'' = Inr Status_zero \<and>
   Status_parse ParseFloat_reject Status_zero ([''Signal''] @ [''quality:'']) = Inl EmptyInput"
proof -
  have i: "SplitN2Colon ''Operator: none'' = [''Operator'', '' none'']"
    "''Operator'' \<notin> set infoKeys"
    by (simp_all add: SplitN2Colon_def infoKeys_def)
  have k: "\<forall>x\<in>set [''Signal'']. \<not> HasSuffixColon x" "HasSuffixColon ''quality:''"
    "JoinSpace ([''Signal''] @ [''quality:'']) \<notin> set statusKeys" "[''good''] \<noteq> []"
    "\<forall>x\<in>set [''good'']. \<not> HasSuffixColon x"
    "\<forall>x\<in>set [''good'']. \<not> HasSuffixColon (TrimSpace x)"
    by (simp_all add: HasSuffixColon_def statusKeys_def trim_defs)
  have f: "Fields ''Signal quality:  good'' = [''Signal''] @ ''quality:'' # [''good'']"
    by (simp add: Fields_signal)
  note w = unknown_key_ignored [of "''Operator: none''" "''Operator''" "'' none''" Info_zero
      "[''Signal'']" "''quality:''" "[''good'']" ParseFloat_reject Status_zero
      "''Signal quality:  good''"]
  have a: "parseInfo_line Info_zero ''Operator: none'' = Inr Info_zero"
    "parseInfo0_line Info_zero ''Operator: none'' = Inr Info_zero"
    using w i by blast+
  have b: "Status_parse ParseFloat_reject Status_zero ([''Signal''] @ ''quality:'' # [''good'']) =
      Inr Status_zero"
    using w k by blast
  have c: "parseStatus_line ParseFloat_reject Status_zero ''Signal quality:  good'' =
      Inr Status_zero"
    using w k f by blast
  have d: "Status_parse ParseFloat_reject Status_zero ([''Signal''] @ [''quality:'']) =
      Inl EmptyInput"
    using w k by blast
  show ?thesis
    using i k(3) a b c d f by blast
qed

section \<open>Info lines with an empty value\<close>

lemma parseInfo0_line_eq: "parseInfo0_line i l = parseInfo_line i l"
  by (simp add: parseInfo0_line_def parseInfo_line_def Let_def newValueParser_def infoSwitch_def
      withString_def withInt_def valueParser_String_def valueParser_Int_def valueParser_Err_def
      split: sum.splits)

lemma parseInfo0_loop_eq: "parseInfo0_loop i ls = parseInfo_loop i ls"
  by (induction ls arbitrary: i) (simp_all add: parseInfo0_line_eq split: sum.splits)

lemma parseInfo0_eq: "parseInfo0 ls = parseInfo ls"
  by (simp add: parseInfo0_def parseInfo_def parseInfo0_loop_eq)

lemma parseInfo_line_error:
  "parseInfo_line i l = Inl e \<Longrightarrow> e = MalformedLine l \<or> (\<exists>t ne. e = NumError ''Atoi'' t ne)"
  unfolding parseInfo0_line_eq [symmetric]
  by (auto simp: parseInfo0_line_def Let_def split: if_splits sum.splits dest: Atoi_error)

lemma parseInfo_loop_not_EmptyInput: "parseInfo_loop i ls \<noteq> Inl EmptyInput"
proof (induction ls arbitrary: i)
  case Nil
  then show ?case by simp
next
  case (Cons l ls)
  show ?case
  proof (cases "parseInfo_line i l")
    case (Inl e)
    then have "e \<noteq> EmptyInput" by (auto dest: parseInfo_line_error)
    with Inl show ?thesis by simp
  next
    case (Inr i')
    with Cons show ?thesis by simp
  qed
qed

lemma trimLeft_spaces: "\<forall>c\<in>set w. isSpace1 c \<Longrightarrow> trimLeft w = []"
proof (induction w)
  case Nil
  then show ?case by simp
next
  case (Cons c cs)
  then have "spaceWidth (c # cs) = Suc 0"
    by (cases "c # cs" rule: spaceWidth.cases) auto
  with Cons show ?case by simp
qed

lemma TrimSpace_spaces: "\<forall>c\<in>set w. isSpace1 c \<Longrightarrow> TrimSpace w = []"
  by (simp add: TrimSpace_def trimRight_def trimLeft_spaces)

lemma parseInfo_line_string_key:
  assumes "TrimSpace w = []"
  shows "parseInfo_line i (''Manufacturer:'' @ w) = Inr (i\<lparr>Manufacturer := []\<rparr>)"
    and "parseInfo_line i (''Model:'' @ w) = Inr (i\<lparr>Model := []\<rparr>)"
    and "parseInfo_line i (''Revision:'' @ w) = Inr (i\<lparr>Revision := []\<rparr>)"
    and "parseInfo_line i (''IMEI:'' @ w) = Inr (i\<lparr>IMEI := []\<rparr>)"
    and "parseInfo_line i (''MEID:'' @ w) = Inr (i\<lparr>MEID := []\<rparr>)"
    and "parseInfo_line i (''FSN:'' @ w) = Inr (i\<lparr>FSN := []\<rparr>)"
    and "parseInfo_line i (''+GCAP:'' @ w) = Inr (i\<lparr>GCAP := [[]]\<rparr>)"
    and "parseInfo_line i (''IMEI SV:'' @ w) = Inl (NumError ''Atoi'' [] ErrSyntax)"
  using assms
  unfolding parseInfo0_line_eq [symmetric]
  by (simp_all add: parseInfo0_line_def SplitN2Colon_def Atoi_def)

text \<open>
  C10, as the claim has it, fails for the one key with an integer value: the empty string
  is no integer, and the line \<^verbatim>\<open>"IMEI SV:"\<close> makes the parse fail with the conversion error
  of \<^verbatim>\<open>strconv.Atoi\<close>.
\<close>

theorem imei_sv_empty_value_counterexample:
  "parseInfo [''IMEI SV:''] = Inl (NumError ''Atoi'' [] ErrSyntax) \<and>
   parseInfo [''IMEI SV:   ''] = Inl (NumError ''Atoi'' [] ErrSyntax) \<and>
   Device_Info (Inr [''IMEI SV:   '']) = Inl (NumError ''Atoi'' [] ErrSyntax)"
  by (simp add: Device_Info_def parseInfo_def parseInfo0_line_eq [symmetric] parseInfo0_line_def
      SplitN2Colon_def trim_defs Atoi_def)

text \<open>
  C10, amended. An info line that consists of a key with a string value, a colon and only
  white space (text that \<^verbatim>\<open>TrimSpace\<close> reduces to the empty string) is parsed without
  error and sets that field to the empty string, and \<^verbatim>\<open>+GCAP\<close> to the list that holds the
  empty string; for \<^verbatim>\<open>IMEI SV\<close> the line fails with the conversion error. The value parser
  is made from one token, so its construction succeeds, and \<^verbatim>\<open>parseInfo\<close> never fails with
  \<open>EmptyInput\<close>; the \<^verbatim>\<open>parseInfo\<close> of \<^verbatim>\<open>device.go\<close> computes the same result.
\<close>

theorem info_empty_value:
  "(TrimSpace w = [] \<longrightarrow>
      parseInfo_line i (''Manufacturer:'' @ w) = Inr (i\<lparr>Manufacturer := []\<rparr>) \<and>
      parseInfo_line i (''Model:'' @ w) = Inr (i\<lparr>Model := []\<rparr>) \<and>
      parseInfo_line i (''Revision:'' @ w) = Inr (i\<lparr>Revision := []\<rparr>) \<and>
      parseInfo_line i (''IMEI:'' @ w) = Inr (i\<lparr>IMEI := []\<rparr>) \<and>
      parseInfo_line i (''MEID:'' @ w) = Inr (i\<lparr>MEID := []\<rparr>) \<and>
      parseInfo_line i (''FSN:'' @ w) = Inr (i\<lparr>FSN := []\<rparr>) \<and>
      parseInfo_line i (''+GCAP:'' @ w) = Inr (i\<lparr>GCAP := [[]]\<rparr>) \<and>
      parseInfo_line i (''IMEI SV:'' @ w) = Inl (NumError ''Atoi'' [] ErrSyntax)) \<and>
   newValueParser [x] = Inr \<lparr>vp_ss = [TrimSpace x], vp_err = None\<rparr> \<and>
   parseInfo lines \<noteq> Inl EmptyInput \<and>
   Device_Info (Inr lines) \<noteq> Inl EmptyInput \<and>
   parseInfo0 lines = parseInfo lines"
proof -
  have a: "TrimSpace w = [] \<longrightarrow>
      parseInfo_line i (''Manufacturer:'' @ w) = Inr (i\<lparr>Manufacturer := []\<rparr>) \<and>
      parseInfo_line i (''Model:'' @ w) = Inr (i\<lparr>Model := []\<rparr>) \<and>
      parseInfo_line i (''Revision:'' @ w) = Inr (i\<lparr>Revision := []\<rparr>) \<and>
      parseInfo_line i (''IMEI:'' @ w) = Inr (i\<lparr>IMEI := []\<rparr>) \<and>
      parseInfo_line i (''MEID:'' @ w) = Inr (i\<lparr>MEID := []\<rparr>) \<and>
      parseInfo_line i (''FSN:'' @ w) = Inr (i\<lparr>FSN := []\<rparr>) \<and>
      parseInfo_line i (''+GCAP:'' @ w) = Inr (i\<lparr>GCAP := [[]]\<rparr>) \<and>
      parseInfo_line i (''IMEI SV:'' @ w) = Inl (NumError ''Atoi'' [] ErrSyntax)"
    using parseInfo_line_string_key [of w i] by blast
  have b: "newValueParser [x] = Inr \<lparr>vp_ss = [TrimSpace x], vp_err = None\<rparr>"
    by (simp add: newValueParser_def)
  have c: "parseInfo lines \<noteq> Inl EmptyInput"
    by (simp add: parseInfo_def parseInfo_loop_not_EmptyInput)
  have d: "Device_Info (Inr lines) \<noteq> Inl EmptyInput"
    by (simp add: Device_Info_def parseInfo_def parseInfo_loop_not_EmptyInput)
  have e: "parseInfo0 lines = parseInfo lines"
    by (rule parseInfo0_eq)
  show ?thesis
    using a b c d e by blast
qed

text \<open>C10, amended, at lines whose value is three spaces.\<close>

theorem info_empty_value_witness:
  "TrimSpace ''   '' = [] \<and>
   parseInfo_line Info_zero ''Manufacturer:   '' = Inr (Info_zero\<lparr>Manufacturer := []\<rparr>) \<and>
   parseInfo_line Info_zero ''+GCAP:   '' = Inr (Info_zero\<lparr>GCAP := [[]]\<rparr>) \<and>
   parseInfo_line Info_zero ''IMEI SV:   '' = Inl (NumError ''Atoi'' [] ErrSyntax)"
proof -
  have t: "TrimSpace ''   '' = []"
    by (simp add: TrimSpace_spaces isSpace1_def)
  show ?thesis
    using info_empty_value [of "''   ''" Info_zero] t by simp
qed

end
